theory Spec2Isabelle
  imports Complex_Main "HOL-Library.List_Lexorder" "HOL-Library.Multiset"
begin

section \<open>The durable store (schema of db/init.sql)\<close>

text \<open>
  The tables of the schema that the messaging server reads or writes. Identifiers are
  unsigned AUTO\_INCREMENT columns and are natural numbers here (the column widths are not
  modelled: no table ever grows to them). A table that the server enumerates is a list of
  rows in insertion order; a table that the server only reaches through its primary key is
  a partial map from that key, so the PRIMARY KEY constraint holds by construction.
  Columns that the server never reads or writes (password\_hash, title, msg\_type,
  joined\_at, left\_at, device\_id and the created\_at of users, conversations and blocks) are
  left out.
\<close>

type_synonym timestamp = nat

record user_row =
  uid :: nat
  username :: string
  email :: string
  is_active :: bool

datatype conv_type = Dm | Group

record conversation_row =
  cid :: nat
  ctype :: conv_type
  created_by :: "nat option"

datatype member_role = Member | Admin

record message_row =
  mid :: nat
  conversation_id :: nat
  sender_user_id :: nat
  body :: string
  created_at :: timestamp

record receipt_row =
  delivered_at :: "timestamp option"
  read_at :: "timestamp option"

record database =
  users :: "user_row list"
  conversations :: "conversation_row list"
  conversation_members :: "nat \<times> nat \<rightharpoonup> member_role"
  messages :: "message_row list"
  message_receipts :: "nat \<times> nat \<rightharpoonup> receipt_row"
  user_blocks :: "(nat \<times> nat) set"
  conversations_autoinc :: nat
  messages_autoinc :: nat

text \<open>
  Errors with which a statement is refused: a duplicate primary key, a foreign key that
  names no row, a negative value for an unsigned column, and a value too long for its
  column (the store runs in its default, strict mode).
\<close>

datatype db_error = ER_DUP_ENTRY | ER_NO_REFERENCED_ROW | ER_OUT_OF_RANGE | ER_DATA_TOO_LONG

section \<open>Values of the wire protocol\<close>

text \<open>
  \<open>Number(x)\<close> of a field of a parsed message is NaN or a number: \<open>Num k\<close> is the
  integer \<open>k\<close> and \<open>Frac q\<close> the number \<open>q\<close>, so that \<open>Num k\<close> and
  \<open>Frac (of_int k)\<close> are one number and are treated alike (the infinities are outside
  the model). \<open>falsy n\<close> is JavaScript's \<open>!n\<close>.
\<close>

datatype jsnum = NaN | Num int | Frac rat

definition falsy :: "jsnum \<Rightarrow> bool" where
  "falsy n = (case n of NaN \<Rightarrow> True | Num k \<Rightarrow> k = 0 | Frac q \<Rightarrow> q = 0)"

text \<open>
  A number as a parameter of a statement. Compared with an integer column in a WHERE or ON
  clause it is compared exactly: \<open>where_value\<close> is the integer that it equals, and a
  number that is not an integer equals no value of the column. Written into an integer
  column by an INSERT it is rounded, a half away from zero: \<open>num_value\<close>.
\<close>

definition where_value :: "jsnum \<Rightarrow> int option" where
  "where_value n =
     (case n of
        NaN \<Rightarrow> None
      | Num k \<Rightarrow> Some k
      | Frac q \<Rightarrow> if of_int \<lfloor>q\<rfloor> = q then Some \<lfloor>q\<rfloor> else None)"

definition sql_round :: "rat \<Rightarrow> int" where
  "sql_round q = (if 0 \<le> q then \<lfloor>q + 1 / 2\<rfloor> else - \<lfloor>- q + 1 / 2\<rfloor>)"

primrec num_value :: "jsnum \<Rightarrow> int" where
  "num_value NaN = 0"
| "num_value (Num k) = k"
| "num_value (Frac q) = sql_round q"

text \<open>
  A string is the bytes of its UTF-8 encoding. \<open>String.prototype.trim\<close> removes from
  both ends the white space and the line terminators of ECMAScript: TAB, LF, VT, FF, CR,
  SPACE, U+00A0, U+1680, U+2000 to U+200A, U+2028, U+2029, U+202F, U+205F, U+3000 and
  U+FEFF, here in their encodings.
\<close>

definition white_space :: "string list" where
  "white_space =
     [[CHR 0x09], [CHR 0x0A], [CHR 0x0B], [CHR 0x0C], [CHR 0x0D], [CHR 0x20],
      [CHR 0xC2, CHR 0xA0],
      [CHR 0xE1, CHR 0x9A, CHR 0x80],
      [CHR 0xE2, CHR 0x80, CHR 0x80], [CHR 0xE2, CHR 0x80, CHR 0x81],
      [CHR 0xE2, CHR 0x80, CHR 0x82], [CHR 0xE2, CHR 0x80, CHR 0x83],
      [CHR 0xE2, CHR 0x80, CHR 0x84], [CHR 0xE2, CHR 0x80, CHR 0x85],
      [CHR 0xE2, CHR 0x80, CHR 0x86], [CHR 0xE2, CHR 0x80, CHR 0x87],
      [CHR 0xE2, CHR 0x80, CHR 0x88], [CHR 0xE2, CHR 0x80, CHR 0x89],
      [CHR 0xE2, CHR 0x80, CHR 0x8A],
      [CHR 0xE2, CHR 0x80, CHR 0xA8], [CHR 0xE2, CHR 0x80, CHR 0xA9],
      [CHR 0xE2, CHR 0x80, CHR 0xAF],
      [CHR 0xE2, CHR 0x81, CHR 0x9F],
      [CHR 0xE3, CHR 0x80, CHR 0x80],
      [CHR 0xEF, CHR 0xBB, CHR 0xBF]]"

text \<open>
  The number of bytes of the white space with which a string starts, or ends; 0 when it
  starts, or ends, with none.
\<close>

definition leading_white :: "string \<Rightarrow> nat" where
  "leading_white s =
     (case filter (\<lambda>w. take (length w) s = w) white_space of [] \<Rightarrow> 0 | w # _ \<Rightarrow> length w)"

definition trailing_white :: "string \<Rightarrow> nat" where
  "trailing_white s =
     (case filter (\<lambda>w. length w \<le> length s \<and> drop (length s - length w) s = w) white_space of
        [] \<Rightarrow> 0
      | w # _ \<Rightarrow> length w)"

function trimStart :: "string \<Rightarrow> string" where
  "trimStart s = (if leading_white s = 0 then s else trimStart (drop (leading_white s) s))"
  by pat_completeness auto
termination
proof (relation "measure length")
  show "wf (measure length)" by simp
next
  fix s :: string
  assume "leading_white s \<noteq> 0"
  moreover have "leading_white [] = 0"
    by (simp add: leading_white_def white_space_def)
  ultimately have "s \<noteq> []" by auto
  with \<open>leading_white s \<noteq> 0\<close> show "(drop (leading_white s) s, s) \<in> measure length"
    by simp
qed

function trimEnd :: "string \<Rightarrow> string" where
  "trimEnd s =
     (if trailing_white s = 0 then s else trimEnd (take (length s - trailing_white s) s))"
  by pat_completeness auto
termination
proof (relation "measure length")
  show "wf (measure length)" by simp
next
  fix s :: string
  assume "trailing_white s \<noteq> 0"
  moreover have "trailing_white [] = 0"
    by (simp add: trailing_white_def white_space_def)
  ultimately have "s \<noteq> []" by auto
  with \<open>trailing_white s \<noteq> 0\<close> show "(take (length s - trailing_white s) s, s) \<in> measure length"
    by simp
qed

declare trimStart.simps [simp del]

declare trimEnd.simps [simp del]

definition trim :: "string \<Rightarrow> string" where
  "trim s = trimEnd (trimStart s)"

text \<open>
  A message of a client after \<open>JSON.parse\<close>, dispatched on \<open>msg.type\<close>. \<open>Hello\<close>
  carries \<open>msg.token\<close> when it is a string; \<open>MsgSend\<close> carries \<open>Number(msg.toUserId)\<close>
  and \<open>String(msg.body ?? '')\<close>; \<open>MsgDelivered\<close> carries \<open>Number(msg.msgId)\<close>;
  \<open>OtherType\<close> is any other value of \<open>msg.type\<close>, also a missing one.
  \<open>InvalidJson\<close> is a frame that \<open>JSON.parse\<close> refuses and \<open>JsonNull\<close> the frame
  \<open>null\<close>, on which reading \<open>msg.type\<close> throws.
\<close>

datatype client_msg =
    Hello "string option"
  | MsgSend jsnum string
  | MsgDelivered jsnum
  | OtherType

datatype inbound = InvalidJson | JsonNull | Parsed client_msg

datatype error_code = invalid_json | unauthorized | bad_request | blocked | unknown_type

record roster_entry =
  r_id :: nat
  r_username :: string
  r_email :: string
  online :: bool

text \<open>
  An id as the server holds it. The connector hands the value of a BIGINT column
  (\<open>messages.id\<close>, \<open>conversations.id\<close>, \<open>messages.conversation_id\<close>) over as a
  BigInt; the server makes a Number of an insertId (\<open>Number(r.insertId)\<close>), and the
  values of INT columns are Numbers.
\<close>

datatype jsid = AsNumber nat | AsBigInt nat

primrec jsid_value :: "jsid \<Rightarrow> nat" where
  "jsid_value (AsNumber n) = n"
| "jsid_value (AsBigInt n) = n"

text \<open>
  What the server sends: \<open>MsgNew msgId conversationId fromUserId body createdAt\<close>,
  \<open>MsgSent msgId conversationId\<close>, \<open>MsgDeliveredBy msgId byUserId\<close>.
  \<open>JSON.stringify\<close> throws a TypeError on an object that holds a BigInt:
  \<open>serializable\<close> says that it returns.
\<close>

datatype server_msg =
    Error error_code
  | HelloOk nat string
  | Users "roster_entry list"
  | MsgNew jsid jsid nat string timestamp
  | MsgSent nat jsid
  | MsgDeliveredBy int nat

primrec is_number :: "jsid \<Rightarrow> bool" where
  "is_number (AsNumber n) = True"
| "is_number (AsBigInt n) = False"

definition serializable :: "server_msg \<Rightarrow> bool" where
  "serializable obj =
     (case obj of
        MsgNew msgId conversationId fromUserId b createdAt \<Rightarrow>
          is_number msgId \<and> is_number conversationId
      | MsgSent msgId conversationId \<Rightarrow> is_number conversationId
      | _ \<Rightarrow> True)"

section \<open>The server's state\<close>

type_synonym conn = nat

datatype ready_state = CONNECTING | OPEN | CLOSING | CLOSED

record session =
  userId :: nat
  sess_username :: string

record token_payload =
  p_userId :: nat
  p_username :: string

text \<open>
  \<open>connectionsByUser\<close> is the Map from a user id to the Set of its sockets (a list
  without repetition, in insertion order), \<open>sessionBySocket\<close> the WeakMap from a socket
  to its session, \<open>clients\<close> the set \<open>wss.clients\<close>. A socket is a number; a socket
  that the server has not accepted yet is \<open>CONNECTING\<close>. \<open>outbox\<close> collects, per
  socket, the frames sent on it, oldest first, and \<open>close_code\<close> the code with which the
  server closed it.
\<close>

record server =
  db :: database
  connectionsByUser :: "nat \<rightharpoonup> conn list"
  sessionBySocket :: "conn \<rightharpoonup> session"
  clients :: "conn list"
  readyState :: "conn \<Rightarrow> ready_state"
  outbox :: "conn \<Rightarrow> server_msg list"
  close_code :: "conn \<rightharpoonup> nat"

text \<open>
  What the server takes from outside: \<open>hmac\<close>, the base64url digest of the HMAC of a
  string under the server's secret; \<open>decode_payload\<close>, the object that
  \<open>JSON.parse\<close> makes of a base64url string, with its userId (0 when it has none), or
  nothing when the parse throws; and the sort key of the collation of
  \<open>users.username\<close> (utf8mb4\_uca1400\_ai\_ci), a list of weights compared
  lexicographically.
\<close>

record env =
  hmac :: "string \<Rightarrow> string"
  decode_payload :: "string \<Rightarrow> token_payload option"
  sortKey :: "string \<Rightarrow> nat list"

text \<open>The two clocks read while a message is handled.\<close>

record tick =
  db_now :: timestamp
  js_now :: timestamp

text \<open>
  A handler is an async function: it completes, or its promise is rejected with the error
  that was thrown, and nothing in the server catches it. What the runtime then does (it
  may end the process) is not modelled: the state after a rejected handler is the state
  at the throw.
\<close>

datatype js_error = TypeError | RangeError | SqlError db_error

datatype outcome = Completed | Rejected js_error

section \<open>Statements on the store\<close>

definition user_exists :: "database \<Rightarrow> nat \<Rightarrow> bool" where
  "user_exists d u = (u \<in> uid ` set (users d))"

definition conversation_exists :: "database \<Rightarrow> nat \<Rightarrow> bool" where
  "conversation_exists d c = (c \<in> cid ` set (conversations d))"

definition message_exists :: "database \<Rightarrow> nat \<Rightarrow> bool" where
  "message_exists d m = (m \<in> mid ` set (messages d))"

text \<open>\<open>SELECT id, username, is_active FROM users WHERE id = ? LIMIT 1\<close>\<close>

definition select_user :: "database \<Rightarrow> nat \<Rightarrow> user_row option" where
  "select_user d u = find (\<lambda>r. uid r = u) (users d)"

text \<open>A member row for conversation \<open>c\<close> and the user that the parameter \<open>u\<close> names.\<close>

definition has_member :: "database \<Rightarrow> nat \<Rightarrow> int \<Rightarrow> bool" where
  "has_member d c u = (0 \<le> u \<and> conversation_members d (c, nat u) \<noteq> None)"

text \<open>
  The SELECT of getOrCreateDM: the dm conversations joined with the member rows of both
  users, LIMIT 1 (the first in table order).
\<close>

definition dm_rows :: "database \<Rightarrow> int \<Rightarrow> int \<Rightarrow> conversation_row list" where
  "dm_rows d minId maxId =
     filter (\<lambda>c. has_member d (cid c) minId \<and> has_member d (cid c) maxId \<and> ctype c = Dm)
       (conversations d)"

definition dm_select :: "database \<Rightarrow> int \<Rightarrow> int \<Rightarrow> nat option" where
  "dm_select d minId maxId =
     (case dm_rows d minId maxId of [] \<Rightarrow> None | c # _ \<Rightarrow> Some (cid c))"

text \<open>
  \<open>INSERT INTO conversations (type, title, created_by) VALUES ('dm', NULL, ?)\<close> with the
  id \<open>c\<close> that AUTO\_INCREMENT hands out.
\<close>

definition insert_conversation :: "database \<Rightarrow> nat \<Rightarrow> int \<Rightarrow> db_error + database" where
  "insert_conversation d c userA =
     (if userA < 0 then Inl ER_OUT_OF_RANGE
      else if conversation_exists d c then Inl ER_DUP_ENTRY
      else if \<not> user_exists d (nat userA) then Inl ER_NO_REFERENCED_ROW
      else Inr (d\<lparr>conversations :=
                   conversations d @ [\<lparr>cid = c, ctype = Dm, created_by = Some (nat userA)\<rparr>]\<rparr>))"

text \<open>One row of \<open>INSERT INTO conversation_members (conversation_id, user_id, role)\<close>.\<close>

definition insert_member :: "database \<Rightarrow> nat \<Rightarrow> int \<Rightarrow> db_error + database" where
  "insert_member d c u =
     (if u < 0 then Inl ER_OUT_OF_RANGE
      else if conversation_members d (c, nat u) \<noteq> None then Inl ER_DUP_ENTRY
      else if \<not> conversation_exists d c \<or> \<not> user_exists d (nat u) then Inl ER_NO_REFERENCED_ROW
      else Inr (d\<lparr>conversation_members := (conversation_members d)((c, nat u) \<mapsto> Member)\<rparr>))"

text \<open>
  The transaction of getOrCreateDM: both inserts or, after an error, the rollback. The
  AUTO\_INCREMENT value is used up either way.
\<close>

definition dm_create :: "database \<Rightarrow> int \<Rightarrow> int \<Rightarrow> (db_error + nat) \<times> database" where
  "dm_create d userA userB =
     (let conversationId = conversations_autoinc d;
          d0 = d\<lparr>conversations_autoinc := Suc conversationId\<rparr>
      in case insert_conversation d0 conversationId userA of
           Inl e \<Rightarrow> (Inl e, d0)
         | Inr d1 \<Rightarrow>
             (case insert_member d1 conversationId userA of
                Inl e \<Rightarrow> (Inl e, d0)
              | Inr d2 \<Rightarrow>
                  (case insert_member d2 conversationId userB of
                     Inl e \<Rightarrow> (Inl e, d0)
                   | Inr d3 \<Rightarrow> (Inr conversationId, d3))))"

definition getOrCreateDM :: "database \<Rightarrow> int \<Rightarrow> int \<Rightarrow> (db_error + nat) \<times> database" where
  "getOrCreateDM d userA userB =
     (let minId = (if userA < userB then userA else userB);
          maxId = (if userA < userB then userB else userA)
      in case dm_select d minId maxId of
           Some c \<Rightarrow> (Inr c, d)
         | None \<Rightarrow> dm_create d userA userB)"

text \<open>\<open>SELECT 1 FROM user_blocks WHERE blocker_user_id = ? AND blocked_user_id = ? LIMIT 1\<close>\<close>

definition isBlocked :: "database \<Rightarrow> jsnum \<Rightarrow> nat \<Rightarrow> bool" where
  "isBlocked d blocker blockedId =
     (case where_value blocker of
        None \<Rightarrow> False
      | Some k \<Rightarrow> 0 \<le> k \<and> (nat k, blockedId) \<in> user_blocks d)"

text \<open>
  getOrCreateDM as the handler of msg\_send calls it: userB is \<open>Number(msg.toUserId)\<close>,
  any number. The SELECT compares it exactly, so that a number that is not an integer
  finds no conversation and the call goes on to the transaction, whose INSERT rounds it.
  The value returned is \<open>rows[0].id\<close> of the SELECT, a BigInt, or else
  \<open>Number(r.insertId)\<close>.
\<close>

definition getOrCreateDM_js :: "database \<Rightarrow> int \<Rightarrow> jsnum \<Rightarrow> (db_error + jsid) \<times> database" where
  "getOrCreateDM_js d userA userB =
     (case where_value userB of
        Some b \<Rightarrow>
          (case getOrCreateDM d userA b of
             (Inl e, d') \<Rightarrow> (Inl e, d')
           | (Inr c, d') \<Rightarrow>
               (Inr (if dm_select d (if userA < b then userA else b)
                                    (if userA < b then b else userA) = None
                     then AsNumber c else AsBigInt c),
                d'))
      | None \<Rightarrow>
          (case dm_create d userA (num_value userB) of
             (Inl e, d') \<Rightarrow> (Inl e, d')
           | (Inr c, d') \<Rightarrow> (Inr (AsNumber c), d')))"

text \<open>
  \<open>INSERT INTO messages (conversation_id, sender_user_id, body, msg_type)\<close>; created\_at
  defaults to the clock of the store. A TEXT column holds 65535 bytes.
\<close>

definition insert_message ::
  "database \<Rightarrow> nat \<Rightarrow> nat \<Rightarrow> string \<Rightarrow> timestamp \<Rightarrow> (db_error + nat) \<times> database" where
  "insert_message d conversationId fromUserId b now =
     (let msgId = messages_autoinc d;
          d0 = d\<lparr>messages_autoinc := Suc msgId\<rparr>
      in if 65535 < length b then (Inl ER_DATA_TOO_LONG, d)
         else if message_exists d msgId then (Inl ER_DUP_ENTRY, d0)
         else if \<not> conversation_exists d conversationId \<or> \<not> user_exists d fromUserId
           then (Inl ER_NO_REFERENCED_ROW, d0)
         else (Inr msgId,
               d0\<lparr>messages := messages d @
                     [\<lparr>mid = msgId, conversation_id = conversationId,
                       sender_user_id = fromUserId, body = b, created_at = now\<rparr>]\<rparr>))"

text \<open>
  \<open>INSERT INTO message_receipts (message_id, user_id, delivered_at) VALUES (?, ?, NOW())
  ON DUPLICATE KEY UPDATE delivered_at = COALESCE(delivered_at, VALUES(delivered_at))\<close>
\<close>

definition coalesce :: "'a option \<Rightarrow> 'a option \<Rightarrow> 'a option" where
  "coalesce a b = (case a of None \<Rightarrow> b | Some x \<Rightarrow> Some x)"

definition upsert_receipt :: "database \<Rightarrow> int \<Rightarrow> nat \<Rightarrow> timestamp \<Rightarrow> db_error + database" where
  "upsert_receipt d msgId u now =
     (if msgId < 0 then Inl ER_OUT_OF_RANGE
      else if \<not> message_exists d (nat msgId) \<or> \<not> user_exists d u then Inl ER_NO_REFERENCED_ROW
      else Inr (d\<lparr>message_receipts := (message_receipts d)((nat msgId, u) \<mapsto>
                  (case message_receipts d (nat msgId, u) of
                     None \<Rightarrow> \<lparr>delivered_at = Some now, read_at = None\<rparr>
                   | Some r \<Rightarrow> r\<lparr>delivered_at := coalesce (delivered_at r) (Some now)\<rparr>))\<rparr>))"

text \<open>\<open>SELECT sender_user_id FROM messages WHERE id = ? LIMIT 1\<close>\<close>

definition select_sender :: "database \<Rightarrow> int \<Rightarrow> nat option" where
  "select_sender d msgId =
     map_option sender_user_id (find (\<lambda>m. int (mid m) = msgId) (messages d))"

text \<open>
  The query of deliverPendingToUser: the messages of the conversations of which the user
  is a member, left-joined with the user's receipt, kept where delivered\_at is NULL,
  ordered by created\_at (rows of one created\_at stay in table order), at most 500.
\<close>

definition undelivered :: "database \<Rightarrow> nat \<Rightarrow> message_row \<Rightarrow> bool" where
  "undelivered d u m =
     (case message_receipts d (mid m, u) of None \<Rightarrow> True | Some r \<Rightarrow> delivered_at r = None)"

definition is_pending :: "database \<Rightarrow> nat \<Rightarrow> message_row \<Rightarrow> bool" where
  "is_pending d u m = (conversation_members d (conversation_id m, u) \<noteq> None \<and> undelivered d u m)"

definition select_pending :: "database \<Rightarrow> nat \<Rightarrow> message_row list" where
  "select_pending d u = take 500 (sort_key created_at (filter (is_pending d u) (messages d)))"

section \<open>The messaging server\<close>

text \<open>
  The server's code follows the schema in the same source file, from the imports on.
  Each handler runs from its first statement to its last without another handler in
  between: what other handlers do while one waits at an \<open>await\<close> is not modelled.
  The store's statements fail as values, and so does what throws; a function that may
  throw returns the outcome with the state. The one place where the claims are about two
  calls overlapping, getOrCreateDM, is in two parts above: \<open>dm_select\<close> (before the
  first \<open>await\<close> returns) and \<open>dm_create\<close> (the transaction).
\<close>

definition then_do :: "outcome \<times> server \<Rightarrow> (server \<Rightarrow> outcome \<times> server) \<Rightarrow> outcome \<times> server" where
  "then_do r f = (case r of (Completed, s) \<Rightarrow> f s | (Rejected e, s) \<Rightarrow> (Rejected e, s))"

definition isUserOnline :: "server \<Rightarrow> nat \<Rightarrow> bool" where
  "isUserOnline s u = (case connectionsByUser s u of None \<Rightarrow> False | Some wss \<Rightarrow> wss \<noteq> [])"

text \<open>\<open>if (ws.readyState === ws.OPEN) ws.send(data)\<close>, for a frame that is serialized.\<close>

definition ws_send :: "conn \<Rightarrow> server_msg \<Rightarrow> server \<Rightarrow> server" where
  "ws_send ws obj s =
     (if readyState s ws = OPEN then s\<lparr>outbox := (outbox s)(ws := outbox s ws @ [obj])\<rparr> else s)"

definition safeSend :: "conn \<Rightarrow> server_msg \<Rightarrow> server \<Rightarrow> outcome \<times> server" where
  "safeSend ws obj s =
     (if readyState s ws = OPEN
      then (if serializable obj then (Completed, ws_send ws obj s) else (Rejected TypeError, s))
      else (Completed, s))"

text \<open>The loop \<open>for (const ws of ...) if (ws.readyState === ws.OPEN) ws.send(data)\<close>.\<close>

definition send_each :: "conn list \<Rightarrow> server_msg \<Rightarrow> server \<Rightarrow> server" where
  "send_each wss obj s = fold (\<lambda>ws. ws_send ws obj) wss s"

text \<open>
  The Map is keyed by the ids of users that completed a handshake; a number that is
  negative or not an integer is not among its keys.
\<close>

definition connections_get :: "server \<Rightarrow> jsnum \<Rightarrow> conn list option" where
  "connections_get s u =
     (case where_value u of
        None \<Rightarrow> None
      | Some k \<Rightarrow> if k < 0 then None else connectionsByUser s (nat k))"

definition sendToUser :: "jsnum \<Rightarrow> server_msg \<Rightarrow> server \<Rightarrow> outcome \<times> server" where
  "sendToUser u obj s =
     (case connections_get s u of
        None \<Rightarrow> (Completed, s)
      | Some wss \<Rightarrow>
          if serializable obj then (Completed, send_each wss obj s) else (Rejected TypeError, s))"

definition users_payload :: "env \<Rightarrow> server \<Rightarrow> roster_entry list" where
  "users_payload env s =
     map (\<lambda>u. \<lparr>r_id = uid u, r_username = username u, r_email = email u,
                online = isUserOnline s (uid u)\<rparr>)
       (filter is_active (sort_key (\<lambda>u. sortKey env (username u)) (users (db s))))"

definition sendUsersList :: "env \<Rightarrow> conn option \<Rightarrow> server \<Rightarrow> server" where
  "sendUsersList env toWs s =
     (let msg = Users (users_payload env s)
      in case toWs of
           Some w \<Rightarrow> ws_send w msg s
         | None \<Rightarrow> send_each (clients s) msg s)"

text \<open>The object that deliverPendingToUser builds of a row: its two ids are BigInts.\<close>

definition msg_new_of :: "message_row \<Rightarrow> server_msg" where
  "msg_new_of m =
     MsgNew (AsBigInt (mid m)) (AsBigInt (conversation_id m)) (sender_user_id m) (body m)
       (created_at m)"

fun deliver_rows :: "nat \<Rightarrow> message_row list \<Rightarrow> server \<Rightarrow> outcome \<times> server" where
  "deliver_rows u [] s = (Completed, s)"
| "deliver_rows u (m # ms) s =
     then_do (sendToUser (Num (int u)) (msg_new_of m) s) (deliver_rows u ms)"

definition deliverPendingToUser :: "nat \<Rightarrow> server \<Rightarrow> outcome \<times> server" where
  "deliverPendingToUser u s = deliver_rows u (select_pending (db s) u) s"

text \<open>
  verifyToken. The token is split at its dots and the first two parts are the payload and
  the signature. \<open>crypto.timingSafeEqual\<close> throws a RangeError when the signature has
  not as many bytes as the digest that is expected.
\<close>

definition verifyToken :: "env \<Rightarrow> string option \<Rightarrow> js_error + token_payload option" where
  "verifyToken env token =
     (case token of
        None \<Rightarrow> Inr None
      | Some t \<Rightarrow>
          if t = [] then Inr None
          else
            (let payload = takeWhile (\<lambda>c. c \<noteq> CHR ''.'') t;
                 sig = takeWhile (\<lambda>c. c \<noteq> CHR ''.'') (drop (Suc (length payload)) t);
                 expected = hmac env payload
             in if payload = [] \<or> sig = [] then Inr None
                else if length sig \<noteq> length expected then Inl RangeError
                else if sig \<noteq> expected then Inr None
                else Inr (decode_payload env payload)))"

text \<open>\<open>ws.close(code, reason)\<close>: an open socket starts closing.\<close>

definition ws_close :: "conn \<Rightarrow> nat \<Rightarrow> server \<Rightarrow> server" where
  "ws_close ws code s =
     (if readyState s ws = OPEN
      then s\<lparr>readyState := (readyState s)(ws := CLOSING), close_code := (close_code s)(ws \<mapsto> code)\<rparr>
      else s)"

definition reject_unauthorized :: "conn \<Rightarrow> server \<Rightarrow> outcome \<times> server" where
  "reject_unauthorized ws s =
     then_do (safeSend ws (Error unauthorized) s) (\<lambda>s'. (Completed, ws_close ws 1008 s'))"

definition set_add :: "'a \<Rightarrow> 'a list \<Rightarrow> 'a list" where
  "set_add x xs = (if x \<in> set xs then xs else xs @ [x])"

definition register_connection :: "nat \<Rightarrow> conn \<Rightarrow> server \<Rightarrow> server" where
  "register_connection u ws s =
     s\<lparr>connectionsByUser := (connectionsByUser s)(u \<mapsto>
          set_add ws (case connectionsByUser s u of None \<Rightarrow> [] | Some wss \<Rightarrow> wss))\<rparr>"

text \<open>1) handshake\<close>

definition handle_hello :: "env \<Rightarrow> conn \<Rightarrow> string option \<Rightarrow> server \<Rightarrow> outcome \<times> server" where
  "handle_hello env ws token s =
     (case verifyToken env token of
        Inl e \<Rightarrow> (Rejected e, s)
      | Inr None \<Rightarrow> reject_unauthorized ws s
      | Inr (Some payload) \<Rightarrow>
          if p_userId payload = 0 then reject_unauthorized ws s
          else
            (case select_user (db s) (p_userId payload) of
               None \<Rightarrow> reject_unauthorized ws s
             | Some row \<Rightarrow>
                 if \<not> is_active row then reject_unauthorized ws s
                 else
                   (let u = p_userId payload;
                        s1 = s\<lparr>sessionBySocket := (sessionBySocket s)(ws \<mapsto>
                               \<lparr>userId = u, sess_username = username row\<rparr>)\<rparr>;
                        s2 = register_connection u ws s1
                    in then_do (safeSend ws (HelloOk u (username row)) s2)
                         (\<lambda>s3. deliverPendingToUser u (sendUsersList env None s3)))))"

text \<open>2) msg\_send\<close>

definition handle_msg_send ::
  "tick \<Rightarrow> conn \<Rightarrow> session \<Rightarrow> jsnum \<Rightarrow> string \<Rightarrow> server \<Rightarrow> outcome \<times> server" where
  "handle_msg_send t ws sess toUserId b0 s =
     (let fromUserId = userId sess;
          b = trim b0
      in if falsy toUserId \<or> b = [] then safeSend ws (Error bad_request) s
         else if isBlocked (db s) toUserId fromUserId then safeSend ws (Error blocked) s
         else
           (case getOrCreateDM_js (db s) (int fromUserId) toUserId of
              (Inl e, d1) \<Rightarrow> (Rejected (SqlError e), s\<lparr>db := d1\<rparr>)
            | (Inr conversationId, d1) \<Rightarrow>
                (case insert_message d1 (jsid_value conversationId) fromUserId b (db_now t) of
                   (Inl e, d2) \<Rightarrow> (Rejected (SqlError e), s\<lparr>db := d2\<rparr>)
                 | (Inr msgId, d2) \<Rightarrow>
                     then_do
                       (sendToUser toUserId
                          (MsgNew (AsNumber msgId) conversationId fromUserId b (js_now t))
                          (s\<lparr>db := d2\<rparr>))
                       (safeSend ws (MsgSent msgId conversationId)))))"

text \<open>3) msg\_delivered\<close>

definition handle_msg_delivered ::
  "tick \<Rightarrow> conn \<Rightarrow> session \<Rightarrow> jsnum \<Rightarrow> server \<Rightarrow> outcome \<times> server" where
  "handle_msg_delivered t ws sess k s =
     (let u = userId sess
      in if falsy k then safeSend ws (Error bad_request) s
         else
           (case upsert_receipt (db s) (num_value k) u (db_now t) of
              Inl e \<Rightarrow> (Rejected (SqlError e), s)
            | Inr d1 \<Rightarrow>
                (case where_value k of
                   None \<Rightarrow> (Completed, s\<lparr>db := d1\<rparr>)
                 | Some msgId \<Rightarrow>
                     (case select_sender d1 msgId of
                        None \<Rightarrow> (Completed, s\<lparr>db := d1\<rparr>)
                      | Some senderId \<Rightarrow>
                          sendToUser (Num (int senderId)) (MsgDeliveredBy msgId u)
                            (s\<lparr>db := d1\<rparr>)))))"

text \<open>The listener of \<open>message\<close>.\<close>

definition on_message :: "env \<Rightarrow> tick \<Rightarrow> conn \<Rightarrow> inbound \<Rightarrow> server \<Rightarrow> outcome \<times> server" where
  "on_message env t ws raw s =
     (case raw of
        InvalidJson \<Rightarrow> safeSend ws (Error invalid_json) s
      | JsonNull \<Rightarrow> (Rejected TypeError, s)
      | Parsed msg \<Rightarrow>
          (case msg of
             Hello token \<Rightarrow> handle_hello env ws token s
           | _ \<Rightarrow>
               (case sessionBySocket s ws of
                  None \<Rightarrow> safeSend ws (Error unauthorized) s
                | Some sess \<Rightarrow>
                    (case msg of
                       MsgSend toUserId b \<Rightarrow> handle_msg_send t ws sess toUserId b s
                     | MsgDelivered k \<Rightarrow> handle_msg_delivered t ws sess k s
                     | _ \<Rightarrow> safeSend ws (Error unknown_type) s))))"

text \<open>The listener of \<open>close\<close>.\<close>

definition unregister_connection :: "nat \<Rightarrow> conn \<Rightarrow> server \<Rightarrow> server" where
  "unregister_connection u ws s =
     (case connectionsByUser s u of
        None \<Rightarrow> s
      | Some wss \<Rightarrow>
          if removeAll ws wss = [] then s\<lparr>connectionsByUser := (connectionsByUser s)(u := None)\<rparr>
          else s\<lparr>connectionsByUser := (connectionsByUser s)(u \<mapsto> removeAll ws wss)\<rparr>)"

definition on_close :: "env \<Rightarrow> conn \<Rightarrow> server \<Rightarrow> server" where
  "on_close env ws s =
     (case sessionBySocket s ws of
        None \<Rightarrow> s
      | Some sess \<Rightarrow> sendUsersList env None (unregister_connection (userId sess) ws s))"

text \<open>
  What happens to the server: a socket is accepted (it joins \<open>wss.clients\<close>, open), a
  frame arrives on a socket that is open or closing, a socket closes (it leaves
  \<open>wss.clients\<close> before the listener runs), and \<open>/api/register\<close> inserts a user: a
  row with an unused id, active. The checks of that endpoint on the fields and the unique
  keys of username and email are not modelled, which only allows more rows. A run goes on
  after a handler that was rejected, from the state at the throw: a server whose process
  the runtime ends there reaches fewer states, not more. Each event is one step, so the
  states in which one handler waits while another runs are not among those of a run.
\<close>

datatype event =
    Connection conn
  | Message tick conn inbound
  | Close conn
  | Registered user_row

definition step :: "env \<Rightarrow> event \<Rightarrow> server \<Rightarrow> server" where
  "step env e s =
     (case e of
        Connection ws \<Rightarrow>
          if readyState s ws = CONNECTING
          then s\<lparr>clients := set_add ws (clients s), readyState := (readyState s)(ws := OPEN)\<rparr>
          else s
      | Message t ws raw \<Rightarrow>
          if readyState s ws = OPEN \<or> readyState s ws = CLOSING
          then snd (on_message env t ws raw s)
          else s
      | Close ws \<Rightarrow>
          if readyState s ws = OPEN \<or> readyState s ws = CLOSING
          then on_close env ws
                 (s\<lparr>clients := removeAll ws (clients s), readyState := (readyState s)(ws := CLOSED)\<rparr>)
          else s
      | Registered row \<Rightarrow>
          if user_exists (db s) (uid row) then s
          else s\<lparr>db := (db s)\<lparr>users := users (db s) @ [row\<lparr>is_active := True\<rparr>]\<rparr>\<rparr>)"

definition initial :: "database \<Rightarrow> server" where
  "initial d =
     \<lparr>db = d, connectionsByUser = Map.empty, sessionBySocket = Map.empty, clients = [],
      readyState = (\<lambda>_. CONNECTING), outbox = (\<lambda>_. []), close_code = Map.empty\<rparr>"

inductive reachable :: "env \<Rightarrow> server \<Rightarrow> bool" for env :: env where
  start: "reachable env (initial d)"
| after: "reachable env s \<Longrightarrow> reachable env (step env e s)"

section \<open>Notions of the specification\<close>

text \<open>
  A parsed message is a hello; an integer names a message, or a user, of the store when
  it is the id of a row of messages, or of users.
\<close>

definition is_hello :: "client_msg \<Rightarrow> bool" where
  "is_hello m = (case m of Hello _ \<Rightarrow> True | _ \<Rightarrow> False)"

definition names_message :: "database \<Rightarrow> int \<Rightarrow> bool" where
  "names_message d k = (0 \<le> k \<and> message_exists d (nat k))"

definition names_user :: "database \<Rightarrow> int \<Rightarrow> bool" where
  "names_user d k = (0 \<le> k \<and> user_exists d (nat k))"


text \<open>
  The deliveredAt of the receipt of a message and a user (nothing when there is no
  receipt, or its delivered\_at is NULL), the connections of a user, and what the Sets of
  the server satisfy as Sets: no socket twice.
\<close>

definition receipt_delivered :: "database \<Rightarrow> nat \<Rightarrow> nat \<Rightarrow> timestamp option" where
  "receipt_delivered d m u =
     (case message_receipts d (m, u) of None \<Rightarrow> None | Some r \<Rightarrow> delivered_at r)"

definition connectionsOf :: "server \<Rightarrow> nat \<Rightarrow> conn list" where
  "connectionsOf s u = (case connectionsByUser s u of None \<Rightarrow> [] | Some wss \<Rightarrow> wss)"

definition sets_ok :: "server \<Rightarrow> bool" where
  "sets_ok s = (distinct (clients s) \<and> (\<forall>u. distinct (connectionsOf s u)))"

text \<open>The registry holds no entry whose Set is empty.\<close>

definition no_empty_set :: "server \<Rightarrow> bool" where
  "no_empty_set s = (\<forall>u. connectionsByUser s u \<noteq> Some [])"

definition registry_ok :: "server \<Rightarrow> bool" where
  "registry_ok s = (sets_ok s \<and> no_empty_set s)"

text \<open>The user of every session is a row of users.\<close>

definition sessions_ok :: "server \<Rightarrow> bool" where
  "sessions_ok s = (\<forall>ws sess. sessionBySocket s ws = Some sess \<longrightarrow> user_exists (db s) (userId sess))"

text \<open>
  What AUTO\_INCREMENT and the foreign key fk\_members\_conversation keep true of the
  store: the ids of the conversations are below the counter, and a member row belongs to
  a conversation that exists.
\<close>

definition store_ok :: "database \<Rightarrow> bool" where
  "store_ok d =
     ((\<forall>c \<in> set (conversations d). cid c < conversations_autoinc d) \<and>
      (\<forall>k \<in> dom (conversation_members d). conversation_exists d (fst k)))"

text \<open>
  A call of getOrCreateDM in progress: before its SELECT, between the SELECT that found
  nothing and the transaction, and after its return. \<open>dm_step\<close> runs the call up to its
  next suspension; \<open>interleave\<close> runs two calls on one store, one step at a time, the
  schedule saying whose turn it is (True: the first call).
\<close>

datatype dm_call = Selecting int int | Creating int int | Returned "db_error + nat"

fun dm_step :: "database \<Rightarrow> dm_call \<Rightarrow> dm_call \<times> database" where
  "dm_step d (Selecting userA userB) =
     (case dm_select d (if userA < userB then userA else userB)
                       (if userA < userB then userB else userA) of
        Some c \<Rightarrow> (Returned (Inr c), d)
      | None \<Rightarrow> (Creating userA userB, d))"
| "dm_step d (Creating userA userB) =
     (case dm_create d userA userB of (r, d') \<Rightarrow> (Returned r, d'))"
| "dm_step d (Returned r) = (Returned r, d)"

fun interleave :: "bool list \<Rightarrow> dm_call \<times> dm_call \<times> database \<Rightarrow> dm_call \<times> dm_call \<times> database" where
  "interleave [] st = st"
| "interleave (first # sched) (k1, k2, d) =
     (if first
      then (case dm_step d k1 of (k1', d') \<Rightarrow> interleave sched (k1', k2, d'))
      else (case dm_step d k2 of (k2', d') \<Rightarrow> interleave sched (k1, k2', d')))"

text \<open>
  The backlog in the words of the specification: a message is due to a user when the user
  is a member of its conversation and no receipt of the pair has a deliveredAt. A list is
  a backlog of the user when it is ordered by creation time, holds only due messages, each
  no more often than the store does, holds 500 of them or else all, and leaves out no due
  message that is older than one it holds.
\<close>

definition in_backlog :: "database \<Rightarrow> nat \<Rightarrow> message_row \<Rightarrow> bool" where
  "in_backlog d u m =
     (conversation_members d (conversation_id m, u) \<noteq> None \<and> receipt_delivered d (mid m) u = None)"

definition backlog_spec :: "database \<Rightarrow> nat \<Rightarrow> message_row list \<Rightarrow> bool" where
  "backlog_spec d u ms =
     (sorted (map created_at ms) \<and>
      mset ms \<subseteq># filter_mset (in_backlog d u) (mset (messages d)) \<and>
      length ms = min 500 (size (filter_mset (in_backlog d u) (mset (messages d)))) \<and>
      (\<forall>m \<in># filter_mset (in_backlog d u) (mset (messages d)) - mset ms.
         \<forall>m' \<in> set ms. created_at m' \<le> created_at m))"

text \<open>
  The roster in the words of the specification: a list of entries is the roster of a state
  when it is ordered by username (in the collation's order) and holds exactly the active
  users, each as id, username, email and online, online being isUserOnline of the id.
  \<open>new_frames\<close> are the frames that a socket was sent between two states and
  \<open>rosters\<close> the payloads of the users frames among some frames.
\<close>

definition roster_spec :: "env \<Rightarrow> server \<Rightarrow> roster_entry list \<Rightarrow> bool" where
  "roster_spec env s r =
     (sorted (map (\<lambda>e. sortKey env (r_username e)) r) \<and>
      mset r =
        image_mset
          (\<lambda>u. \<lparr>r_id = uid u, r_username = username u, r_email = email u,
                 online = isUserOnline s (uid u)\<rparr>)
          (filter_mset is_active (mset (users (db s)))))"

definition new_frames :: "server \<Rightarrow> server \<Rightarrow> conn \<Rightarrow> server_msg list" where
  "new_frames s s' c = drop (length (outbox s c)) (outbox s' c)"

fun rosters :: "server_msg list \<Rightarrow> roster_entry list list" where
  "rosters [] = []"
| "rosters (Users r # xs) = r # rosters xs"
| "rosters (x # xs) = rosters xs"

section \<open>Example data\<close>

text \<open>
  Four users: bob (1) and alice (2), active, and carol (3) and dave (4), not active.
  Conversation 1 is the DM of alice and carol, with one message of each; carol has
  received alice's message; carol has blocked bob. A token is a payload, a dot and the
  digest of the payload; the payloads of bob and alice decode to their ids. Usernames are
  compared by their character codes.
\<close>

definition example_env :: env where
  "example_env =
     \<lparr>hmac = (\<lambda>p. ''sig-'' @ p),
      decode_payload =
        (\<lambda>p. if p = ''bob'' then Some \<lparr>p_userId = 1, p_username = ''bob''\<rparr>
             else if p = ''alice'' then Some \<lparr>p_userId = 2, p_username = ''alice''\<rparr>
             else None),
      sortKey = map of_char\<rparr>"

definition example_db :: database where
  "example_db =
     \<lparr>users =
        [\<lparr>uid = 1, username = ''bob'', email = ''bob@upv.es'', is_active = True\<rparr>,
         \<lparr>uid = 2, username = ''alice'', email = ''alice@upv.es'', is_active = True\<rparr>,
         \<lparr>uid = 3, username = ''carol'', email = ''carol@upv.es'', is_active = False\<rparr>,
         \<lparr>uid = 4, username = ''dave'', email = ''dave@upv.es'', is_active = False\<rparr>],
      conversations = [\<lparr>cid = 1, ctype = Dm, created_by = Some 2\<rparr>],
      conversation_members = [(1, 2) \<mapsto> Member, (1, 3) \<mapsto> Member],
      messages =
        [\<lparr>mid = 1, conversation_id = 1, sender_user_id = 2, body = ''hola'', created_at = 100\<rparr>,
         \<lparr>mid = 2, conversation_id = 1, sender_user_id = 3, body = ''que tal'', created_at = 105\<rparr>],
      message_receipts = [(1, 3) \<mapsto> \<lparr>delivered_at = Some 101, read_at = None\<rparr>],
      user_blocks = {(3, 1)},
      conversations_autoinc = 2,
      messages_autoinc = 3\<rparr>"

text \<open>
  Bob is connected on socket 10 and alice on socket 12, both after a hello; socket 11 is
  connected and has not said hello. The two ticks read the clocks at 200 and at 300.
\<close>

definition example_server :: server where
  "example_server =
     \<lparr>db = example_db,
      connectionsByUser = [1 \<mapsto> [10], 2 \<mapsto> [12]],
      sessionBySocket =
        [10 \<mapsto> \<lparr>userId = 1, sess_username = ''bob''\<rparr>,
         12 \<mapsto> \<lparr>userId = 2, sess_username = ''alice''\<rparr>],
      clients = [10, 11, 12],
      readyState = (\<lambda>_. CONNECTING)(10 := OPEN, 11 := OPEN, 12 := OPEN),
      outbox = (\<lambda>_. []),
      close_code = Map.empty\<rparr>"

definition example_tick :: tick where
  "example_tick = \<lparr>db_now = 200, js_now = 201\<rparr>"

definition example_later :: tick where
  "example_later = \<lparr>db_now = 300, js_now = 301\<rparr>"

text \<open>The example after bob, on socket 10, acknowledged message 1.\<close>

definition example_acked :: server where
  "example_acked =
     snd (on_message example_env example_tick 10 (Parsed (MsgDelivered (Num 1))) example_server)"

text \<open>A state that the server reaches: bob connects on socket 10 and says hello.\<close>

definition example_hello :: server where
  "example_hello =
     step example_env (Message example_tick 10 (Parsed (Hello (Some ''bob.sig-bob''))))
       (step example_env (Connection 10) (initial example_db))"

text \<open>The example after bob said hello on socket 11, his second connection.\<close>

definition example_joined :: server where
  "example_joined =
     snd (on_message example_env example_tick 11 (Parsed (Hello (Some ''bob.sig-bob'')))
            example_server)"

text \<open>The example after alice said hello on socket 11, her second connection.\<close>

definition example_alice_hello :: server where
  "example_alice_hello =
     snd (on_message example_env example_tick 11 (Parsed (Hello (Some ''alice.sig-alice'')))
            example_server)"

text \<open>The example after bob's socket 10 closed.\<close>

definition example_left :: server where
  "example_left = step example_env (Close 10) example_server"

section \<open>What the sends and the registry updates leave alone\<close>

lemma sql_round_of_int: "sql_round (of_int n) = n"
proof -
  have "\<lfloor>of_int n + (1 / 2 :: rat)\<rfloor> = n" "\<lfloor>of_int (- n) + (1 / 2 :: rat)\<rfloor> = - n"
    by linarith+
  then show ?thesis
    by (simp add: sql_round_def)
qed

lemma where_value_num_value: "where_value k = Some j \<Longrightarrow> num_value k = j"
proof (cases k)
  case (Frac q)
  assume "where_value k = Some j"
  with Frac have "of_int j = q"
    by (auto simp: where_value_def split: if_splits)
  with Frac show ?thesis
    using sql_round_of_int [of j] by auto
qed (simp_all add: where_value_def)

lemma then_do_simps [simp]:
  "then_do (Completed, s) f = f s"
  "then_do (Rejected e, s) f = (Rejected e, s)"
  by (simp_all add: then_do_def)

lemma serializable_simps [simp]:
  "serializable (Error e)"
  "serializable (HelloOk u nm)"
  "serializable (Users r)"
  "serializable (MsgDeliveredBy k u)"
  "serializable (MsgNew a b f bd t) = (is_number a \<and> is_number b)"
  "serializable (MsgSent n c) = is_number c"
  "\<not> serializable (msg_new_of m)"
  by (simp_all add: serializable_def msg_new_of_def)

lemma ws_send_frame [simp]:
  "db (ws_send ws m s) = db s"
  "connectionsByUser (ws_send ws m s) = connectionsByUser s"
  "sessionBySocket (ws_send ws m s) = sessionBySocket s"
  "clients (ws_send ws m s) = clients s"
  "readyState (ws_send ws m s) = readyState s"
  "close_code (ws_send ws m s) = close_code s"
  by (simp_all add: ws_send_def)

lemma outbox_ws_send:
  "outbox (ws_send ws m s) c =
     (if c = ws \<and> readyState s ws = OPEN then outbox s c @ [m] else outbox s c)"
  by (simp add: ws_send_def)

lemma safeSend_serializable:
  "serializable m \<Longrightarrow> safeSend ws m s = (Completed, ws_send ws m s)"
  by (simp add: safeSend_def ws_send_def)

lemma safeSend_frame [simp]:
  "db (snd (safeSend ws m s)) = db s"
  "connectionsByUser (snd (safeSend ws m s)) = connectionsByUser s"
  "sessionBySocket (snd (safeSend ws m s)) = sessionBySocket s"
  "clients (snd (safeSend ws m s)) = clients s"
  "readyState (snd (safeSend ws m s)) = readyState s"
  "close_code (snd (safeSend ws m s)) = close_code s"
  by (simp_all add: safeSend_def)

lemma set_outbox_safeSend:
  "set (outbox (snd (safeSend ws m s)) c) \<subseteq> insert m (set (outbox s c))"
  by (auto simp: safeSend_def outbox_ws_send)

lemma send_each_Nil: "send_each [] m s = s"
  by (simp add: send_each_def)

lemma send_each_Cons: "send_each (w # wss) m s = send_each wss m (ws_send w m s)"
  by (simp add: send_each_def)

lemma send_each_frame [simp]:
  "db (send_each wss m s) = db s"
  "connectionsByUser (send_each wss m s) = connectionsByUser s"
  "sessionBySocket (send_each wss m s) = sessionBySocket s"
  "clients (send_each wss m s) = clients s"
  "readyState (send_each wss m s) = readyState s"
  "close_code (send_each wss m s) = close_code s"
  by (induction wss arbitrary: s; simp add: send_each_Nil send_each_Cons)+

lemma outbox_send_each:
  "distinct wss \<Longrightarrow> outbox (send_each wss m s) c =
     (if c \<in> set wss \<and> readyState s c = OPEN then outbox s c @ [m] else outbox s c)"
proof (induction wss arbitrary: s)
  case Nil
  then show ?case by (simp add: send_each_Nil)
next
  case (Cons w wss)
  then show ?case
    by (auto simp: send_each_Cons outbox_ws_send)
qed

lemma set_outbox_send_each:
  "set (outbox (send_each wss m s) c) \<subseteq> insert m (set (outbox s c))"
proof (induction wss arbitrary: s)
  case Nil
  then show ?case by (auto simp: send_each_Nil)
next
  case (Cons w wss)
  have "set (outbox (ws_send w m s) c) \<subseteq> insert m (set (outbox s c))"
    by (auto simp: outbox_ws_send)
  with Cons [of "ws_send w m s"] show ?case
    by (auto simp: send_each_Cons)
qed

lemma sendToUser_frame [simp]:
  "db (snd (sendToUser u m s)) = db s"
  "connectionsByUser (snd (sendToUser u m s)) = connectionsByUser s"
  "sessionBySocket (snd (sendToUser u m s)) = sessionBySocket s"
  "clients (snd (sendToUser u m s)) = clients s"
  "readyState (snd (sendToUser u m s)) = readyState s"
  "close_code (snd (sendToUser u m s)) = close_code s"
  by (simp_all add: sendToUser_def split: option.splits)

lemma connectionsOf_cong:
  "connectionsByUser s' = connectionsByUser s \<Longrightarrow> connectionsOf s' = connectionsOf s"
  by (simp add: connectionsOf_def fun_eq_iff)

lemma connectionsOf_sends [simp]:
  "connectionsOf (ws_send ws m s) = connectionsOf s"
  "connectionsOf (snd (safeSend ws m s)) = connectionsOf s"
  "connectionsOf (send_each wss m s) = connectionsOf s"
  "connectionsOf (snd (sendToUser u m s)) = connectionsOf s"
  "connectionsOf (s\<lparr>db := d\<rparr>) = connectionsOf s"
  by (simp_all add: connectionsOf_def fun_eq_iff)

lemma connections_get_nat: "connections_get s (Num (int u)) = connectionsByUser s u"
  by (simp add: connections_get_def where_value_def)

lemma sendToUser_nat:
  "serializable m \<Longrightarrow>
   sendToUser (Num (int u)) m s = (Completed, send_each (connectionsOf s u) m s)"
  by (simp add: sendToUser_def connections_get_nat connectionsOf_def send_each_Nil
      split: option.splits)

lemma fst_sendToUser [simp]: "serializable m \<Longrightarrow> fst (sendToUser u m s) = Completed"
  by (simp add: sendToUser_def split: option.splits)

lemma sendToUser_result:
  "sendToUser u m s = (oc, s1) \<Longrightarrow>
     db s1 = db s \<and> connectionsByUser s1 = connectionsByUser s \<and>
     sessionBySocket s1 = sessionBySocket s \<and> clients s1 = clients s \<and>
     readyState s1 = readyState s \<and> close_code s1 = close_code s"
  using sendToUser_frame [of u m s] by simp

lemma outbox_sendToUser:
  "distinct (connectionsOf s u) \<Longrightarrow> serializable m \<Longrightarrow>
   outbox (snd (sendToUser (Num (int u)) m s)) c =
     (if c \<in> set (connectionsOf s u) \<and> readyState s c = OPEN then outbox s c @ [m]
      else outbox s c)"
  by (simp add: sendToUser_nat outbox_send_each)

lemma set_outbox_sendToUser:
  "set (outbox (snd (sendToUser u m s)) c) \<subseteq> insert m (set (outbox s c))"
  using set_outbox_send_each [of _ m s c]
  by (auto simp: sendToUser_def split: option.splits)

lemma snd_then_do:
  "snd (then_do r f) = (case fst r of Completed \<Rightarrow> snd (f (snd r)) | Rejected e \<Rightarrow> snd r)"
  by (cases r) (simp add: then_do_def split: outcome.splits)

lemma send_pair_frame [simp]:
  "db (snd (then_do (sendToUser u m s) (safeSend ws m'))) = db s"
  "connectionsByUser (snd (then_do (sendToUser u m s) (safeSend ws m'))) = connectionsByUser s"
  "sessionBySocket (snd (then_do (sendToUser u m s) (safeSend ws m'))) = sessionBySocket s"
  "clients (snd (then_do (sendToUser u m s) (safeSend ws m'))) = clients s"
  "readyState (snd (then_do (sendToUser u m s) (safeSend ws m'))) = readyState s"
  "close_code (snd (then_do (sendToUser u m s) (safeSend ws m'))) = close_code s"
  by (simp_all add: snd_then_do split: outcome.splits)

lemma sendUsersList_frame [simp]:
  "db (sendUsersList env w s) = db s"
  "connectionsByUser (sendUsersList env w s) = connectionsByUser s"
  "sessionBySocket (sendUsersList env w s) = sessionBySocket s"
  "clients (sendUsersList env w s) = clients s"
  "readyState (sendUsersList env w s) = readyState s"
  "close_code (sendUsersList env w s) = close_code s"
  by (simp_all add: sendUsersList_def Let_def split: option.splits)

text \<open>
  The rows of the backlog are never sent: the object of the first row holds BigInts, and
  \<open>JSON.stringify\<close> throws as soon as the user has a Set in the registry.
\<close>

lemma sendToUser_msg_new_of:
  "sendToUser (Num (int u)) (msg_new_of m) s =
     (if connectionsByUser s u = None then Completed else Rejected TypeError, s)"
  by (simp add: sendToUser_def connections_get_nat split: option.splits)

lemma deliver_rows_result:
  "deliver_rows u ms s =
     (if ms = [] \<or> connectionsByUser s u = None then Completed else Rejected TypeError, s)"
  by (induction ms) (simp_all add: sendToUser_msg_new_of)

lemma deliverPendingToUser_result:
  "deliverPendingToUser u s =
     (if select_pending (db s) u = [] \<or> connectionsByUser s u = None
      then Completed else Rejected TypeError, s)"
  by (simp add: deliverPendingToUser_def deliver_rows_result)

lemma ws_close_frame [simp]:
  "db (ws_close ws code s) = db s"
  "connectionsByUser (ws_close ws code s) = connectionsByUser s"
  "sessionBySocket (ws_close ws code s) = sessionBySocket s"
  "clients (ws_close ws code s) = clients s"
  "outbox (ws_close ws code s) = outbox s"
  by (simp_all add: ws_close_def)

lemma reject_unauthorized_result:
  "reject_unauthorized ws s = (Completed, ws_close ws 1008 (ws_send ws (Error unauthorized) s))"
  by (simp add: reject_unauthorized_def safeSend_serializable)

lemma register_connection_frame [simp]:
  "db (register_connection u ws s) = db s"
  "sessionBySocket (register_connection u ws s) = sessionBySocket s"
  "clients (register_connection u ws s) = clients s"
  "readyState (register_connection u ws s) = readyState s"
  "outbox (register_connection u ws s) = outbox s"
  "close_code (register_connection u ws s) = close_code s"
  by (simp_all add: register_connection_def)

lemma connectionsByUser_register: "connectionsByUser (register_connection u ws s) u \<noteq> None"
  by (simp add: register_connection_def)

lemma unregister_connection_frame [simp]:
  "db (unregister_connection u ws s) = db s"
  "sessionBySocket (unregister_connection u ws s) = sessionBySocket s"
  "clients (unregister_connection u ws s) = clients s"
  "readyState (unregister_connection u ws s) = readyState s"
  "outbox (unregister_connection u ws s) = outbox s"
  "close_code (unregister_connection u ws s) = close_code s"
  by (simp_all add: unregister_connection_def split: option.splits)

text \<open>The two ways in which a hello ends: refused, or with the socket registered.\<close>

lemma handle_hello_success:
  assumes "verifyToken env token = Inr (Some p)" and "p_userId p \<noteq> 0"
    and "select_user (db s) (p_userId p) = Some row" and "is_active row"
  shows "handle_hello env ws token s =
           (if select_pending (db s) (p_userId p) = [] then Completed else Rejected TypeError,
            sendUsersList env None
              (ws_send ws (HelloOk (p_userId p) (username row))
                 (register_connection (p_userId p) ws
                    (s\<lparr>sessionBySocket := (sessionBySocket s)(ws \<mapsto>
                         \<lparr>userId = p_userId p, sess_username = username row\<rparr>)\<rparr>))))"
  using assms
  by (simp add: handle_hello_def Let_def safeSend_serializable deliverPendingToUser_result
      connectionsByUser_register)

lemma handle_hello_cases:
  "handle_hello env ws token s = (Rejected RangeError, s) \<or>
   handle_hello env ws token s =
     (Completed, ws_close ws 1008 (ws_send ws (Error unauthorized) s)) \<or>
   (\<exists>u nm. select_user (db s) u \<noteq> None \<and>
      snd (handle_hello env ws token s) =
        sendUsersList env None (ws_send ws (HelloOk u nm)
          (register_connection u ws
             (s\<lparr>sessionBySocket := (sessionBySocket s)(ws \<mapsto> \<lparr>userId = u, sess_username = nm\<rparr>)\<rparr>))))"
proof (cases "\<exists>p row. verifyToken env token = Inr (Some p) \<and> p_userId p \<noteq> 0 \<and>
    select_user (db s) (p_userId p) = Some row \<and> is_active row")
  case True
  then obtain p row where h: "verifyToken env token = Inr (Some p)" "p_userId p \<noteq> 0"
    "select_user (db s) (p_userId p) = Some row" "is_active row"
    by blast
  show ?thesis
    using h(3) by (auto simp: handle_hello_success [OF h])
next
  case False
  have "verifyToken env token = Inl RangeError \<or> (\<exists>r. verifyToken env token = Inr r)"
    by (auto simp: verifyToken_def Let_def split: option.splits)
  with False show ?thesis
    by (auto simp: handle_hello_def reject_unauthorized_result split: option.splits)
qed

lemma db_handle_hello [simp]: "db (snd (handle_hello env ws token s)) = db s"
  using handle_hello_cases [of env ws token s] by auto

lemma db_on_close [simp]: "db (on_close env ws s) = db s"
  by (simp add: on_close_def split: option.splits)

section \<open>Receipts\<close>

lemma receipts_getOrCreateDM [simp]:
  "message_receipts (snd (getOrCreateDM d a b)) = message_receipts d"
  by (simp add: getOrCreateDM_def dm_create_def insert_conversation_def insert_member_def
      Let_def split: option.splits)

lemma receipts_dm_create [simp]:
  "message_receipts (snd (dm_create d a b)) = message_receipts d"
  by (simp add: dm_create_def insert_conversation_def insert_member_def
      Let_def split: option.splits)

lemma receipts_getOrCreateDM_js [simp]:
  "message_receipts (snd (getOrCreateDM_js d a b)) = message_receipts d"
proof -
  have a: "message_receipts d1 = message_receipts d"
    if "getOrCreateDM d x y = (r, d1)" for x y r d1
    using receipts_getOrCreateDM [of d x y] that by simp
  have b: "message_receipts d1 = message_receipts d"
    if "dm_create d x y = (r, d1)" for x y r d1
    using receipts_dm_create [of d x y] that by simp
  show ?thesis
    by (auto simp: getOrCreateDM_js_def a b split: option.splits prod.splits sum.splits)
qed

lemma receipts_insert_message [simp]:
  "message_receipts (snd (insert_message d c u b now)) = message_receipts d"
  by (simp add: insert_message_def Let_def)

lemma receipts_handle_msg_send [simp]:
  "message_receipts (db (snd (handle_msg_send t ws sess k b s))) = message_receipts (db s)"
proof -
  have a: "message_receipts d1 = message_receipts (db s)"
    if "getOrCreateDM_js (db s) x y = (r, d1)" for x y r d1
    using receipts_getOrCreateDM_js [of "db s" x y] that by simp
  have b: "message_receipts d2 = message_receipts d1"
    if "insert_message d1 c u bd now = (r, d2)" for d1 c u bd now r d2
    using receipts_insert_message [of d1 c u bd now] that by simp
  show ?thesis
    by (auto simp: handle_msg_send_def Let_def a b split: prod.splits sum.splits)
qed

lemma receipt_delivered_upsert:
  assumes "upsert_receipt d k u now = Inr d1"
  shows "receipt_delivered d1 m v =
           (if m = nat k \<and> v = u
            then Some (case receipt_delivered d m v of None \<Rightarrow> now | Some ts \<Rightarrow> ts)
            else receipt_delivered d m v)"
  using assms
  by (auto simp: upsert_receipt_def receipt_delivered_def coalesce_def
      split: if_splits option.splits)

lemma upsert_receipt_again:
  assumes "upsert_receipt d k u now = Inr d1"
  shows "upsert_receipt d1 k u now' = Inr d1"
proof -
  from assms have ok: "0 \<le> k" "message_exists d (nat k)" "user_exists d u"
    by (auto simp: upsert_receipt_def split: if_splits)
  from assms have d1: "d1 = d\<lparr>message_receipts := (message_receipts d)((nat k, u) \<mapsto>
      (case message_receipts d (nat k, u) of
         None \<Rightarrow> \<lparr>delivered_at = Some now, read_at = None\<rparr>
       | Some r \<Rightarrow> r\<lparr>delivered_at := coalesce (delivered_at r) (Some now)\<rparr>))\<rparr>"
    by (auto simp: upsert_receipt_def split: if_splits)
  have ex: "message_exists d1 (nat k)" "user_exists d1 u"
    using ok by (simp_all add: d1 message_exists_def user_exists_def)
  show ?thesis
    using ok(1) ex
    by (simp add: upsert_receipt_def) (simp add: d1 coalesce_def split: option.splits)
qed

lemma receipt_delivered_kept_on_message:
  assumes "receipt_delivered (db s) m u = Some ts"
  shows "receipt_delivered (db (snd (on_message env t ws raw s))) m u = Some ts"
proof -
  have send: "receipt_delivered (db (snd (handle_msg_send t ws sess k b s))) m u = Some ts"
    for sess k b
    using assms by (simp add: receipt_delivered_def)
  have ack: "receipt_delivered (db (snd (handle_msg_delivered t ws sess k s))) m u = Some ts"
    for sess k
    using assms
    by (auto simp: handle_msg_delivered_def Let_def receipt_delivered_upsert
        split: sum.splits option.splits)
  show ?thesis
    using assms send ack
    by (auto simp: on_message_def split: inbound.splits client_msg.splits option.splits)
qed

lemma receipt_delivered_kept_step:
  assumes "receipt_delivered (db s) m u = Some ts"
  shows "receipt_delivered (db (step env e s)) m u = Some ts"
  using assms receipt_delivered_kept_on_message [OF assms]
  by (cases e) (simp_all add: step_def receipt_delivered_def)

section \<open>The registry in every state that the server reaches\<close>

lemma registry_ok_cong:
  assumes "registry_ok s" and "clients s' = clients s"
    and "connectionsByUser s' = connectionsByUser s"
  shows "registry_ok s'"
  using assms by (simp add: registry_ok_def sets_ok_def no_empty_set_def connectionsOf_def)

lemma registry_ok_register:
  assumes "registry_ok s"
  shows "registry_ok (register_connection u ws s)"
  using assms
  by (auto simp: registry_ok_def sets_ok_def no_empty_set_def connectionsOf_def
      register_connection_def set_add_def split: option.splits)

lemma registry_ok_unregister:
  assumes "registry_ok s"
  shows "registry_ok (unregister_connection u ws s)"
  using assms
  by (auto simp: registry_ok_def sets_ok_def no_empty_set_def connectionsOf_def
      unregister_connection_def distinct_removeAll split: option.splits)

lemma registry_handle_msg_send [simp]:
  "connectionsByUser (snd (handle_msg_send t ws sess k b s)) = connectionsByUser s"
  "clients (snd (handle_msg_send t ws sess k b s)) = clients s"
  by (auto simp: handle_msg_send_def Let_def split: prod.splits sum.splits)

lemma registry_handle_msg_delivered [simp]:
  "connectionsByUser (snd (handle_msg_delivered t ws sess k s)) = connectionsByUser s"
  "clients (snd (handle_msg_delivered t ws sess k s)) = clients s"
  by (auto simp: handle_msg_delivered_def Let_def split: sum.splits option.splits)

lemma registry_ok_handle_hello:
  assumes "registry_ok s"
  shows "registry_ok (snd (handle_hello env ws token s))"
proof -
  have a: "registry_ok (ws_close ws 1008 (ws_send ws (Error unauthorized) s))"
    by (rule registry_ok_cong [OF assms]) simp_all
  have b: "registry_ok (sendUsersList env None (ws_send ws (HelloOk u nm)
        (register_connection u ws (s\<lparr>sessionBySocket := ss\<rparr>))))" for u nm ss
  proof -
    have "registry_ok (s\<lparr>sessionBySocket := ss\<rparr>)"
      by (rule registry_ok_cong [OF assms]) simp_all
    then have "registry_ok (register_connection u ws (s\<lparr>sessionBySocket := ss\<rparr>))"
      by (rule registry_ok_register)
    then show ?thesis
      by (rule registry_ok_cong) simp_all
  qed
  show ?thesis
    using handle_hello_cases [of env ws token s] a b assms by auto
qed

lemma registry_ok_on_message:
  assumes "registry_ok s"
  shows "registry_ok (snd (on_message env t ws raw s))"
proof -
  have a: "registry_ok (snd (safeSend ws m s))" for m
    by (rule registry_ok_cong [OF assms]) simp_all
  have b: "registry_ok (snd (handle_msg_send t ws sess k b s))" for sess k b
    by (rule registry_ok_cong [OF assms]) simp_all
  have c: "registry_ok (snd (handle_msg_delivered t ws sess k s))" for sess k
    by (rule registry_ok_cong [OF assms]) simp_all
  show ?thesis
    using assms a b c registry_ok_handle_hello [OF assms]
    by (auto simp: on_message_def split: inbound.splits client_msg.splits option.splits)
qed

lemma registry_ok_on_close:
  assumes "registry_ok s"
  shows "registry_ok (on_close env ws s)"
proof (cases "sessionBySocket s ws")
  case None
  with assms show ?thesis by (simp add: on_close_def)
next
  case (Some sess)
  have "registry_ok (sendUsersList env None (unregister_connection (userId sess) ws s))"
    by (rule registry_ok_cong [OF registry_ok_unregister [OF assms]]) simp_all
  with Some show ?thesis by (simp add: on_close_def)
qed

lemma registry_ok_step:
  assumes "registry_ok s"
  shows "registry_ok (step env e s)"
proof (cases e)
  case (Connection ws)
  have "registry_ok (s\<lparr>clients := set_add ws (clients s), readyState := r\<rparr>)" for r
    using assms
    by (auto simp: registry_ok_def sets_ok_def no_empty_set_def connectionsOf_def set_add_def)
  with assms Connection show ?thesis
    by (simp add: step_def)
next
  case (Message t ws raw)
  with assms registry_ok_on_message [OF assms] show ?thesis
    by (simp add: step_def)
next
  case (Close ws)
  have "registry_ok (s\<lparr>clients := removeAll ws (clients s), readyState := r\<rparr>)" for r
    using assms
    by (auto simp: registry_ok_def sets_ok_def no_empty_set_def connectionsOf_def distinct_removeAll)
  then have "registry_ok (on_close env ws
      (s\<lparr>clients := removeAll ws (clients s), readyState := r\<rparr>))" for r
    by (rule registry_ok_on_close)
  with assms Close show ?thesis
    by (simp add: step_def)
next
  case (Registered row)
  have "registry_ok (s\<lparr>db := d\<rparr>)" for d
    by (rule registry_ok_cong [OF assms]) simp_all
  with assms Registered show ?thesis
    by (simp add: step_def)
qed

lemma reachable_registry_ok:
  assumes "reachable env s"
  shows "registry_ok s"
  using assms
proof (induction rule: reachable.induct)
  case (start d)
  show ?case
    by (simp add: registry_ok_def sets_ok_def no_empty_set_def connectionsOf_def initial_def)
next
  case (after s e)
  then show ?case by (simp add: registry_ok_step)
qed

section \<open>The sessions in every state that the server reaches\<close>

lemma users_getOrCreateDM [simp]: "users (snd (getOrCreateDM d a b)) = users d"
  by (simp add: getOrCreateDM_def dm_create_def insert_conversation_def insert_member_def
      Let_def split: option.splits)

lemma users_dm_create [simp]: "users (snd (dm_create d a b)) = users d"
  by (simp add: dm_create_def insert_conversation_def insert_member_def
      Let_def split: option.splits)

lemma users_getOrCreateDM_js [simp]: "users (snd (getOrCreateDM_js d a b)) = users d"
proof -
  have a: "users d1 = users d" if "getOrCreateDM d x y = (r, d1)" for x y r d1
    using users_getOrCreateDM [of d x y] that by simp
  have b: "users d1 = users d" if "dm_create d x y = (r, d1)" for x y r d1
    using users_dm_create [of d x y] that by simp
  show ?thesis
    by (auto simp: getOrCreateDM_js_def a b split: option.splits prod.splits sum.splits)
qed

lemma users_insert_message [simp]: "users (snd (insert_message d c u b now)) = users d"
  by (simp add: insert_message_def Let_def)

lemma users_upsert_receipt: "upsert_receipt d k u now = Inr d1 \<Longrightarrow> users d1 = users d"
  by (auto simp: upsert_receipt_def split: if_splits)

lemma sessions_handle_msg_send:
  "sessionBySocket (snd (handle_msg_send t ws sess k b s)) = sessionBySocket s"
  "users (db (snd (handle_msg_send t ws sess k b s))) = users (db s)"
proof -
  have a: "users d1 = users (db s)" if "getOrCreateDM_js (db s) x y = (r, d1)" for x y r d1
    using users_getOrCreateDM_js [of "db s" x y] that by simp
  have b: "users d2 = users d1" if "insert_message d1 c u bd now = (r, d2)" for d1 c u bd now r d2
    using users_insert_message [of d1 c u bd now] that by simp
  show "sessionBySocket (snd (handle_msg_send t ws sess k b s)) = sessionBySocket s"
    by (auto simp: handle_msg_send_def Let_def split: prod.splits sum.splits)
  show "users (db (snd (handle_msg_send t ws sess k b s))) = users (db s)"
    by (auto simp: handle_msg_send_def Let_def a b split: prod.splits sum.splits)
qed

lemma sessions_handle_msg_delivered:
  "sessionBySocket (snd (handle_msg_delivered t ws sess k s)) = sessionBySocket s"
  "users (db (snd (handle_msg_delivered t ws sess k s))) = users (db s)"
  by (auto simp: handle_msg_delivered_def Let_def users_upsert_receipt
      split: sum.splits option.splits)

lemma sessions_ok_cong:
  assumes "sessions_ok s" and "sessionBySocket s' = sessionBySocket s"
    and "users (db s') = users (db s)"
  shows "sessions_ok s'"
  using assms by (simp add: sessions_ok_def user_exists_def)

lemma select_user_exists: "select_user d u = Some row \<Longrightarrow> user_exists d u"
  by (auto simp: select_user_def user_exists_def find_Some_iff image_iff)

lemma sessions_ok_handle_hello:
  assumes "sessions_ok s"
  shows "sessions_ok (snd (handle_hello env ws token s))"
proof -
  have a: "sessions_ok (ws_close ws 1008 (ws_send ws (Error unauthorized) s))"
    by (rule sessions_ok_cong [OF assms]) simp_all
  have b: "sessions_ok (sendUsersList env None (ws_send ws (HelloOk u nm)
        (register_connection u ws
           (s\<lparr>sessionBySocket := (sessionBySocket s)(ws \<mapsto> \<lparr>userId = u, sess_username = nm\<rparr>)\<rparr>))))"
    if "select_user (db s) u \<noteq> None" for u nm
  proof -
    from that have "user_exists (db s) u"
      by (auto intro: select_user_exists)
    with assms show ?thesis
      by (simp add: sessions_ok_def user_exists_def)
  qed
  show ?thesis
    using handle_hello_cases [of env ws token s] a b assms by auto
qed

lemma sessions_ok_on_message:
  assumes "sessions_ok s"
  shows "sessions_ok (snd (on_message env t ws raw s))"
proof -
  have a: "sessions_ok (snd (safeSend ws m s))" for m
    by (rule sessions_ok_cong [OF assms]) simp_all
  have b: "sessions_ok (snd (handle_msg_send t ws sess k b s))" for sess k b
    by (rule sessions_ok_cong [OF assms]) (simp_all add: sessions_handle_msg_send)
  have c: "sessions_ok (snd (handle_msg_delivered t ws sess k s))" for sess k
    by (rule sessions_ok_cong [OF assms]) (simp_all add: sessions_handle_msg_delivered)
  show ?thesis
    using assms a b c sessions_ok_handle_hello [OF assms]
    by (auto simp: on_message_def split: inbound.splits client_msg.splits option.splits)
qed

lemma sessions_ok_step:
  assumes "sessions_ok s"
  shows "sessions_ok (step env e s)"
proof (cases e)
  case (Connection ws)
  with assms show ?thesis
    by (simp add: step_def sessions_ok_def user_exists_def)
next
  case (Message t ws raw)
  with assms sessions_ok_on_message [OF assms] show ?thesis
    by (simp add: step_def)
next
  case (Close ws)
  have "sessions_ok (on_close env ws (s\<lparr>clients := cl, readyState := r\<rparr>))" for cl r
    by (rule sessions_ok_cong [OF assms]) (simp_all add: on_close_def split: option.splits)
  with assms Close show ?thesis
    by (simp add: step_def)
next
  case (Registered row)
  with assms show ?thesis
    by (auto simp: step_def sessions_ok_def user_exists_def)
qed

lemma reachable_sessions_ok:
  assumes "reachable env s"
  shows "sessions_ok s"
  using assms
proof (induction rule: reachable.induct)
  case (start d)
  show ?case
    by (simp add: sessions_ok_def initial_def)
next
  case (after s e)
  then show ?case by (simp add: sessions_ok_step)
qed

section \<open>The frames of a handshake\<close>

lemma users_payload_cong:
  assumes "db s' = db s" and "connectionsByUser s' = connectionsByUser s"
  shows "users_payload env s' = users_payload env s"
  using assms by (simp add: users_payload_def isUserOnline_def)

lemma connectionsOf_register:
  "connectionsOf (register_connection u ws s) v =
     (if v = u then set_add ws (connectionsOf s u) else connectionsOf s v)"
  by (simp add: connectionsOf_def register_connection_def)

lemma distinct_set_add: "distinct xs \<Longrightarrow> distinct (set_add x xs)"
  by (simp add: set_add_def)

text \<open>
  A hello that is accepted writes hello\_ok to its socket and the roster to every client,
  and nothing else: with an empty backlog the handler completes, and with any row in it the
  handler is rejected on the first one, before anything of the backlog is written.
\<close>

lemma outbox_after_hello:
  fixes ws :: conn and t :: tick
  assumes ok: "sets_ok s"
    and tok: "verifyToken env token = Inr (Some p)" "p_userId p \<noteq> 0"
    and usr: "select_user (db s) (p_userId p) = Some row" "is_active row"
  defines "s' \<equiv> snd (on_message env t ws (Parsed (Hello token)) s)"
  shows "fst (on_message env t ws (Parsed (Hello token)) s) =
           (if select_pending (db s) (p_userId p) = [] then Completed else Rejected TypeError)"
    and "db s' = db s"
    and "clients s' = clients s"
    and "readyState s' = readyState s"
    and "connectionsOf s' (p_userId p) = set_add ws (connectionsOf s (p_userId p))"
    and "outbox s' c =
           (if readyState s c = OPEN
            then outbox s c @
                 (if c = ws then [HelloOk (p_userId p) (username row)] else []) @
                 (if c \<in> set (clients s) then [Users (users_payload env s')] else [])
            else outbox s c)"
proof -
  let ?u = "p_userId p"
  let ?s1 = "s\<lparr>sessionBySocket := (sessionBySocket s)(ws \<mapsto>
                \<lparr>userId = ?u, sess_username = username row\<rparr>)\<rparr>"
  let ?s2 = "register_connection ?u ws ?s1"
  let ?s3 = "ws_send ws (HelloOk ?u (username row)) ?s2"
  let ?s4 = "sendUsersList env None ?s3"
  have run: "on_message env t ws (Parsed (Hello token)) s =
      (if select_pending (db s) ?u = [] then Completed else Rejected TypeError, ?s4)"
    using handle_hello_success [OF tok usr] by (simp add: on_message_def)
  then have s': "s' = ?s4"
    by (simp add: s'_def)
  show "fst (on_message env t ws (Parsed (Hello token)) s) =
      (if select_pending (db s) ?u = [] then Completed else Rejected TypeError)"
    by (simp add: run)
  show "db s' = db s" "clients s' = clients s" "readyState s' = readyState s"
    by (simp_all add: s')
  have conn1: "connectionsOf ?s1 = connectionsOf s"
    by (rule connectionsOf_cong) simp
  have c2: "connectionsOf ?s2 ?u = set_add ws (connectionsOf s ?u)"
    by (simp add: connectionsOf_register conn1)
  have c4: "connectionsOf ?s4 = connectionsOf ?s2"
    by (rule connectionsOf_cong) simp
  show cs': "connectionsOf s' ?u = set_add ws (connectionsOf s ?u)"
    by (simp add: s' c4 c2)
  have dc: "distinct (clients ?s3)"
    using ok by (simp add: sets_ok_def)
  have up: "users_payload env ?s3 = users_payload env s'"
    by (rule sym, rule users_payload_cong) (simp_all add: s')
  have o3: "outbox ?s3 c =
      (if c = ws \<and> readyState s ws = OPEN
       then outbox s c @ [HelloOk ?u (username row)] else outbox s c)"
    by (simp add: outbox_ws_send)
  have o4: "outbox ?s4 c =
      (if c \<in> set (clients s) \<and> readyState s c = OPEN
       then outbox ?s3 c @ [Users (users_payload env s')] else outbox ?s3 c)"
    using outbox_send_each [OF dc, of "Users (users_payload env ?s3)" ?s3 c]
    by (simp add: sendUsersList_def Let_def up)
  show "outbox s' c =
           (if readyState s c = OPEN
            then outbox s c @
                 (if c = ws then [HelloOk (p_userId p) (username row)] else []) @
                 (if c \<in> set (clients s) then [Users (users_payload env s')] else [])
            else outbox s c)"
    unfolding s' [symmetric] o4 [unfolded s' [symmetric]] o3
    by auto
qed

text \<open>The tokens of the example verify, and their users are active rows of the store.\<close>

lemma example_sets_ok: "sets_ok example_server"
  by (simp add: sets_ok_def connectionsOf_def example_server_def)

lemma example_tokens:
  "verifyToken example_env (Some ''bob.sig-bob'') = Inr (Some \<lparr>p_userId = 1, p_username = ''bob''\<rparr>)"
  "verifyToken example_env (Some ''alice.sig-alice'') =
     Inr (Some \<lparr>p_userId = 2, p_username = ''alice''\<rparr>)"
  by (simp_all add: verifyToken_def example_env_def Let_def)

lemma example_users:
  "select_user (db example_server) 1 =
     Some \<lparr>uid = 1, username = ''bob'', email = ''bob@upv.es'', is_active = True\<rparr>"
  "select_user (db example_server) 2 =
     Some \<lparr>uid = 2, username = ''alice'', email = ''alice@upv.es'', is_active = True\<rparr>"
  by (simp_all add: example_server_def select_user_def example_db_def)

section \<open>C1: one DM conversation per pair\<close>

lemma dm_rows_commute: "dm_rows d a b = dm_rows d b a"
  by (simp add: dm_rows_def conj_commute conj_left_commute cong: filter_cong)

lemma dm_select_commute: "dm_select d a b = dm_select d b a"
  by (simp add: dm_select_def dm_rows_commute [of d a b])

lemma getOrCreateDM_select:
  "getOrCreateDM d a b =
     (case dm_select d a b of Some c \<Rightarrow> (Inr c, d) | None \<Rightarrow> dm_create d a b)"
  by (simp add: getOrCreateDM_def Let_def dm_select_commute [of d b a])

text \<open>A call is its two steps, run without anything in between.\<close>

lemma getOrCreateDM_steps:
  "interleave [True, True] (Selecting a b, k, d) =
     (Returned (fst (getOrCreateDM d a b)), k, snd (getOrCreateDM d a b))"
  by (simp add: getOrCreateDM_def Let_def split: option.splits prod.splits)

lemma dm_create_Inr:
  assumes "dm_create d a b = (Inr c, d1)"
  shows "0 \<le> a" and "0 \<le> b" and "nat a \<noteq> nat b"
    and "c = conversations_autoinc d"
    and "\<not> conversation_exists d c"
    and "conversations d1 = conversations d @ [\<lparr>cid = c, ctype = Dm, created_by = Some (nat a)\<rparr>]"
    and "conversation_members d1 = (conversation_members d)((c, nat a) \<mapsto> Member, (c, nat b) \<mapsto> Member)"
  using assms
  by (auto simp: dm_create_def insert_conversation_def insert_member_def Let_def
      conversation_exists_def split: if_splits)

lemma dm_rows_after_create:
  assumes "dm_create d a b = (Inr c, d1)" and "dm_rows d a b = []"
  shows "dm_rows d1 a b = [\<lparr>cid = c, ctype = Dm, created_by = Some (nat a)\<rparr>]"
proof -
  note f = dm_create_Inr [OF assms(1)]
  have old: "has_member d1 (cid x) u = has_member d (cid x) u" if "x \<in> set (conversations d)" for x u
  proof -
    from that f(5) have "cid x \<noteq> c"
      by (auto simp: conversation_exists_def)
    then show ?thesis
      by (simp add: has_member_def f(7))
  qed
  have "filter (\<lambda>x. has_member d1 (cid x) a \<and> has_member d1 (cid x) b \<and> ctype x = Dm) (conversations d)
      = filter (\<lambda>x. has_member d (cid x) a \<and> has_member d (cid x) b \<and> ctype x = Dm) (conversations d)"
    by (rule filter_cong) (simp_all add: old)
  also have "\<dots> = []"
    using assms(2) by (simp add: dm_rows_def)
  finally show ?thesis
    using f(1,2) by (simp add: dm_rows_def f(6) f(7) has_member_def)
qed

lemma getOrCreateDM_twice:
  assumes "getOrCreateDM d a b = (Inr c, d1)"
  shows "getOrCreateDM d1 b a = (Inr c, d1) \<and> getOrCreateDM d1 a b = (Inr c, d1) \<and>
         (if dm_rows d a b = [] then length (dm_rows d1 a b) = 1 else d1 = d)"
proof (cases "dm_select d a b")
  case None
  then have none: "dm_rows d a b = []"
    by (simp add: dm_select_def split: list.splits)
  from None assms have cr: "dm_create d a b = (Inr c, d1)"
    by (simp add: getOrCreateDM_select)
  have rows: "dm_rows d1 a b = [\<lparr>cid = c, ctype = Dm, created_by = Some (nat a)\<rparr>]"
    by (rule dm_rows_after_create [OF cr none])
  then have sel: "dm_select d1 a b = Some c"
    by (simp add: dm_select_def)
  then have "dm_select d1 b a = Some c"
    by (simp add: dm_select_commute [of d1 b a])
  with sel rows none show ?thesis
    by (simp add: getOrCreateDM_select)
next
  case (Some c')
  with assms have eq: "c' = c" "d1 = d"
    by (simp_all add: getOrCreateDM_select)
  from Some have "dm_rows d a b \<noteq> []"
    by (auto simp: dm_select_def)
  moreover from Some eq have "dm_select d1 b a = Some c" "dm_select d1 a b = Some c"
    by (simp_all add: dm_select_commute [of d b a])
  ultimately show ?thesis
    using eq by (simp add: getOrCreateDM_select)
qed

lemma store_ok_fresh:
  assumes "store_ok d"
  shows "\<not> conversation_exists d (conversations_autoinc d)"
    and "conversation_members d (conversations_autoinc d, u) = None"
proof -
  show *: "\<not> conversation_exists d (conversations_autoinc d)"
    using assms by (auto simp: store_ok_def conversation_exists_def)
  show "conversation_members d (conversations_autoinc d, u) = None"
  proof (rule ccontr)
    assume "conversation_members d (conversations_autoinc d, u) \<noteq> None"
    then have "(conversations_autoinc d, u) \<in> dom (conversation_members d)"
      by auto
    with assms have "conversation_exists d (fst (conversations_autoinc d, u))"
      unfolding store_ok_def by blast
    then have "conversation_exists d (conversations_autoinc d)"
      by simp
    with * show False by simp
  qed
qed

lemma getOrCreateDM_returns:
  assumes "store_ok d" and "user_exists d (nat a)" and "user_exists d (nat b)"
    and "0 \<le> a" and "0 \<le> b" and "a \<noteq> b"
  shows "\<exists>c. fst (getOrCreateDM d a b) = Inr c"
proof (cases "dm_select d a b")
  case None
  have "nat a \<noteq> nat b"
    using assms(4-6) by simp
  then have "\<exists>d3. dm_create d a b = (Inr (conversations_autoinc d), d3)"
    using assms(2-5) store_ok_fresh [OF assms(1)]
    by (simp add: dm_create_def insert_conversation_def insert_member_def Let_def
        conversation_exists_def user_exists_def)
  with None show ?thesis
    by (auto simp: getOrCreateDM_select)
next
  case (Some c)
  then show ?thesis
    by (simp add: getOrCreateDM_select)
qed

text \<open>The invariant of the store outlives a call, whatever it returns.\<close>

lemma store_ok_getOrCreateDM:
  assumes "store_ok d"
  shows "store_ok (snd (getOrCreateDM d a b))"
proof (cases "dm_select d a b")
  case None
  have "store_ok (snd (dm_create d a b))"
    using assms
    by (auto simp: dm_create_def insert_conversation_def insert_member_def Let_def
        store_ok_def conversation_exists_def less_Suc_eq split: if_splits)
  with None show ?thesis
    by (simp add: getOrCreateDM_select)
next
  case (Some c)
  with assms show ?thesis
    by (simp add: getOrCreateDM_select)
qed

text \<open>
  Claim C1, as amended. When a call getOrCreateDM(a, b) returns conversation c, a call run
  after it for the same pair, in either order of the arguments, returns c again and
  leaves the store as it is; the first call changed the store only if the pair had no DM
  conversation, and then the pair has exactly one. For two different users that exist, on
  a store that satisfies its invariant, the call does return a conversation.
\<close>

theorem C1_sequential_calls:
  "(getOrCreateDM d a b = (Inr c, d1) \<longrightarrow>
      getOrCreateDM d1 b a = (Inr c, d1) \<and> getOrCreateDM d1 a b = (Inr c, d1) \<and>
      (if dm_rows d a b = [] then length (dm_rows d1 a b) = 1 else d1 = d)) \<and>
   (store_ok d \<and> user_exists d (nat a) \<and> user_exists d (nat b) \<and> 0 \<le> a \<and> 0 \<le> b \<and> a \<noteq> b \<longrightarrow>
      (\<exists>c'. fst (getOrCreateDM d a b) = Inr c'))"
  using getOrCreateDM_twice [of d a b c d1] getOrCreateDM_returns [of d a b]
  by blast

text \<open>
  Witness for C1: in the example, bob (1) and alice (2) have no conversation; the first
  call creates conversation 2 and the calls after it return 2.
\<close>

theorem C1_sequential_calls_witness:
  "store_ok example_db \<and> user_exists example_db 1 \<and> user_exists example_db 2 \<and>
   fst (getOrCreateDM example_db 1 2) = Inr 2 \<and>
   getOrCreateDM (snd (getOrCreateDM example_db 1 2)) 2 1 = (Inr 2, snd (getOrCreateDM example_db 1 2)) \<and>
   getOrCreateDM (snd (getOrCreateDM example_db 1 2)) 1 2 = (Inr 2, snd (getOrCreateDM example_db 1 2)) \<and>
   dm_rows example_db 1 2 = [] \<and>
   length (dm_rows (snd (getOrCreateDM example_db 1 2)) 1 2) = 1"
proof -
  have ok: "store_ok example_db"
    by (auto simp: store_ok_def example_db_def conversation_exists_def split: if_splits)
  have us: "user_exists example_db 1" "user_exists example_db 2"
    by (simp_all add: user_exists_def example_db_def)
  have a: "fst (getOrCreateDM example_db 1 2) = Inr 2"
    by (simp add: getOrCreateDM_def dm_select_def dm_rows_def has_member_def example_db_def
        dm_create_def insert_conversation_def insert_member_def conversation_exists_def
        user_exists_def Let_def)
  then have b: "getOrCreateDM example_db 1 2 = (Inr 2, snd (getOrCreateDM example_db 1 2))"
    by (simp add: prod_eq_iff)
  have c: "dm_rows example_db 1 2 = []"
    by (simp add: dm_rows_def has_member_def example_db_def)
  show ?thesis
    using C1_sequential_calls [of example_db 1 2 2 "snd (getOrCreateDM example_db 1 2)"]
      ok us a b c by simp
qed

text \<open>
  Counterexample to C1 as stated: two first calls for bob and alice that overlap. Each
  runs its SELECT before the other's transaction, both find nothing, and each creates a
  conversation: the calls return 2 and 3, and the pair has two DM rows.
\<close>

theorem C1_overlapping_calls_create_two:
  "fst (interleave [True, False, True, False] (Selecting 1 2, Selecting 2 1, example_db))
     = Returned (Inr 2) \<and>
   fst (snd (interleave [True, False, True, False] (Selecting 1 2, Selecting 2 1, example_db)))
     = Returned (Inr 3) \<and>
   map cid (dm_rows (snd (snd (interleave [True, False, True, False]
      (Selecting 1 2, Selecting 2 1, example_db)))) 1 2) = [2, 3]"
  by (simp add: dm_select_def dm_rows_def has_member_def example_db_def
      dm_create_def insert_conversation_def insert_member_def conversation_exists_def
      user_exists_def Let_def)

section \<open>C2: a connection without a session\<close>

text \<open>
  Claim C2, as amended. On a connection that has no session (no successful hello yet), every
  parsed message whose type is not hello is answered with error unauthorized when the
  socket is open, and nothing else changes: the handler completes, the socket keeps its
  ready state (it is not closed), it stays without a session, and the store and the
  registry are as before.
\<close>

theorem C2_unauthenticated_rejected:
  assumes "sessionBySocket s ws = None" and "\<not> is_hello m"
  shows "on_message env t ws (Parsed m) s =
           (Completed,
            if readyState s ws = OPEN
            then s\<lparr>outbox := (outbox s)(ws := outbox s ws @ [Error unauthorized])\<rparr>
            else s)"
  using assms by (cases m) (simp_all add: on_message_def safeSend_def ws_send_def is_hello_def)

text \<open>
  Witness for C2: the unauthenticated socket 11 of the example sends a msg\_send.
\<close>

theorem C2_unauthenticated_rejected_witness:
  "sessionBySocket example_server 11 = None \<and> \<not> is_hello (MsgSend (Num 1) ''hi'') \<and>
   readyState example_server 11 = OPEN \<and>
   on_message example_env example_tick 11 (Parsed (MsgSend (Num 1) ''hi'')) example_server =
     (Completed,
      example_server\<lparr>outbox := (outbox example_server)(11 := [Error unauthorized])\<rparr>)"
  using C2_unauthenticated_rejected [of example_server 11 "MsgSend (Num 1) ''hi''" example_env example_tick]
  by (simp add: example_server_def is_hello_def)

text \<open>
  Counterexample to C2 as stated: after the unauthenticated socket 11 sent a msg\_send and
  was answered unauthorized, it is still open and no close code was set.
\<close>

theorem C2_transport_stays_open:
  "sessionBySocket example_server 11 = None \<and>
   readyState example_server 11 = OPEN \<and>
   fst (on_message example_env example_tick 11 (Parsed (MsgSend (Num 1) ''hi'')) example_server) = Completed \<and>
   outbox (snd (on_message example_env example_tick 11 (Parsed (MsgSend (Num 1) ''hi'')) example_server)) 11
     = [Error unauthorized] \<and>
   readyState (snd (on_message example_env example_tick 11 (Parsed (MsgSend (Num 1) ''hi'')) example_server)) 11
     = OPEN \<and>
   close_code (snd (on_message example_env example_tick 11 (Parsed (MsgSend (Num 1) ''hi'')) example_server)) 11
     = None"
  by (simp add: on_message_def example_server_def safeSend_def ws_send_def)

section \<open>C3: validation of msg\_send\<close>

lemma trim_examples:
  "trim ''hola'' = ''hola''"
  "trim ''hola dave'' = ''hola dave''"
  "trim [CHR 0xE3, CHR 0x80, CHR 0x80, CHR 0x20] = []"
  by (simp_all add: trim_def trimStart.simps trimEnd.simps leading_white_def trailing_white_def
      white_space_def)









section \<open>C4: validation of msg\_delivered\<close>

lemma handle_msg_delivered_fraction:
  assumes "where_value k = None" and "\<not> falsy k"
    and "names_message (db s) (num_value k)" and "user_exists (db s) (userId sess)"
  shows "\<exists>d1. upsert_receipt (db s) (num_value k) (userId sess) (db_now t) = Inr d1 \<and>
           handle_msg_delivered t ws sess k s = (Completed, s\<lparr>db := d1\<rparr>) \<and>
           receipt_delivered d1 (nat (num_value k)) (userId sess) =
             Some (case receipt_delivered (db s) (nat (num_value k)) (userId sess) of
                     None \<Rightarrow> db_now t | Some ts \<Rightarrow> ts)"
proof -
  from assms(3,4) obtain d1 where
    up: "upsert_receipt (db s) (num_value k) (userId sess) (db_now t) = Inr d1"
    by (simp add: upsert_receipt_def names_message_def)
  have "handle_msg_delivered t ws sess k s = (Completed, s\<lparr>db := d1\<rparr>)"
    using assms(1,2) up by (simp add: handle_msg_delivered_def Let_def)
  then show ?thesis
    using up receipt_delivered_upsert [OF up, of "nat (num_value k)" "userId sess"] by simp
qed

text \<open>
  Claim C4, as amended. On a connection with a session, a msg\_delivered whose msgId
  converts to NaN or 0 is answered with error bad\_request when the socket is open, and
  nothing else changes. No other msgId is answered with an error. When the msgId, as the
  store writes it (an integer itself, any other number rounded), does not name an existing
  message, the store refuses the receipt: the handler is rejected without a reply and the
  state, with it every receipt, is as before. When the msgId is not an integer and rounds
  to the id of an existing message, the handler completes: the receipt of that message
  and the user gets a deliveredAt, the one it had or else the time of the store, and
  nothing is sent.
\<close>

theorem C4_invalid_msgId:
  assumes "sessionBySocket s ws = Some sess"
  shows "(falsy k \<longrightarrow>
            on_message env t ws (Parsed (MsgDelivered k)) s =
              (Completed,
               if readyState s ws = OPEN
               then s\<lparr>outbox := (outbox s)(ws := outbox s ws @ [Error bad_request])\<rparr>
               else s))
       \<and> (\<not> falsy k \<and> \<not> names_message (db s) (num_value k) \<longrightarrow>
            (\<exists>e. on_message env t ws (Parsed (MsgDelivered k)) s = (Rejected (SqlError e), s)))
       \<and> (where_value k = None \<and> \<not> falsy k \<and> names_message (db s) (num_value k) \<and>
          user_exists (db s) (userId sess) \<longrightarrow>
            (\<exists>d1. upsert_receipt (db s) (num_value k) (userId sess) (db_now t) = Inr d1 \<and>
               on_message env t ws (Parsed (MsgDelivered k)) s = (Completed, s\<lparr>db := d1\<rparr>) \<and>
               receipt_delivered d1 (nat (num_value k)) (userId sess) =
                 Some (case receipt_delivered (db s) (nat (num_value k)) (userId sess) of
                         None \<Rightarrow> db_now t | Some ts \<Rightarrow> ts)))"
proof -
  have run: "on_message env t ws (Parsed (MsgDelivered k)) s = handle_msg_delivered t ws sess k s"
    using assms by (simp add: on_message_def)
  have a: "handle_msg_delivered t ws sess k s =
      (Completed,
       if readyState s ws = OPEN
       then s\<lparr>outbox := (outbox s)(ws := outbox s ws @ [Error bad_request])\<rparr>
       else s)"
    if "falsy k"
    using that by (simp add: handle_msg_delivered_def safeSend_def ws_send_def Let_def)
  have b: "\<exists>e. handle_msg_delivered t ws sess k s = (Rejected (SqlError e), s)"
    if "\<not> falsy k" "\<not> names_message (db s) (num_value k)"
    using that
    by (auto simp: handle_msg_delivered_def Let_def upsert_receipt_def names_message_def)
  show ?thesis
    unfolding run
    using a b handle_msg_delivered_fraction [of k s sess t ws]
    by blast
qed

text \<open>
  Witness for C4: bob, on socket 10, acknowledges msgId 0, then msgId 99, then msgId 1.5,
  which the store rounds to 2: message 2 gets a receipt of bob.
\<close>

theorem C4_invalid_msgId_witness:
  "sessionBySocket example_server 10 = Some \<lparr>userId = 1, sess_username = ''bob''\<rparr> \<and>
   falsy (Num 0) \<and>
   on_message example_env example_tick 10 (Parsed (MsgDelivered (Num 0))) example_server =
     (Completed, example_server\<lparr>outbox := (outbox example_server)(10 := [Error bad_request])\<rparr>) \<and>
   \<not> falsy (Num 99) \<and> \<not> names_message (db example_server) 99 \<and>
   (\<exists>e. on_message example_env example_tick 10 (Parsed (MsgDelivered (Num 99))) example_server =
      (Rejected (SqlError e), example_server)) \<and>
   where_value (Frac (3 / 2)) = None \<and> \<not> falsy (Frac (3 / 2)) \<and> num_value (Frac (3 / 2)) = 2 \<and>
   names_message (db example_server) 2 \<and> user_exists (db example_server) 1 \<and>
   receipt_delivered (db example_server) 2 1 = None \<and>
   fst (on_message example_env example_tick 10 (Parsed (MsgDelivered (Frac (3 / 2))))
          example_server) = Completed \<and>
   receipt_delivered
     (db (snd (on_message example_env example_tick 10 (Parsed (MsgDelivered (Frac (3 / 2))))
                 example_server))) 2 1 = Some 200 \<and>
   outbox (snd (on_message example_env example_tick 10 (Parsed (MsgDelivered (Frac (3 / 2))))
                  example_server)) = outbox example_server"
proof -
  have a: "sessionBySocket example_server 10 = Some \<lparr>userId = 1, sess_username = ''bob''\<rparr>"
    by (simp add: example_server_def)
  have b: "falsy (Num 0)" "\<not> falsy (Num 99)" "\<not> falsy (Frac (3 / 2))"
    by (simp_all add: falsy_def)
  have c: "\<not> names_message (db example_server) 99" "names_message (db example_server) 2"
    "user_exists (db example_server) 1" "receipt_delivered (db example_server) 2 1 = None"
    by (simp_all add: names_message_def message_exists_def user_exists_def receipt_delivered_def
        example_server_def example_db_def)
  have d: "readyState example_server 10 = OPEN" "outbox example_server 10 = []"
    "db_now example_tick = 200"
    by (simp_all add: example_server_def example_tick_def)
  have fl: "\<lfloor>3 / 2 :: rat\<rfloor> = 1" "\<lfloor>3 / 2 + 1 / 2 :: rat\<rfloor> = 2"
    by linarith+
  have e: "where_value (Frac (3 / 2)) = None" "num_value (Frac (3 / 2)) = 2"
    by (simp_all add: where_value_def sql_round_def fl)
  show ?thesis
    using C4_invalid_msgId [OF a, of "Num 0" example_env example_tick]
      C4_invalid_msgId [OF a, of "Num 99" example_env example_tick]
      C4_invalid_msgId [OF a, of "Frac (3 / 2)" example_env example_tick] a b c d e
    by auto
qed

text \<open>
  Counterexample to C4 as stated: no message has id 99, and bob's msg\_delivered for 99 is
  not answered with bad\_request: the handler fails on the foreign key and sends nothing.
\<close>

theorem C4_unknown_message_no_reply:
  "\<not> message_exists example_db 99 \<and>
   on_message example_env example_tick 10 (Parsed (MsgDelivered (Num 99))) example_server =
     (Rejected (SqlError ER_NO_REFERENCED_ROW), example_server) \<and>
   outbox (snd (on_message example_env example_tick 10 (Parsed (MsgDelivered (Num 99)))
      example_server)) 10 = []"
  by (simp add: on_message_def handle_msg_delivered_def example_server_def example_db_def
      falsy_def upsert_receipt_def message_exists_def Let_def)

section \<open>C5: the delivery acknowledgement is idempotent\<close>

lemma handle_msg_delivered_Completed:
  assumes "\<not> falsy k"
    and "handle_msg_delivered t ws sess k s = (Completed, s1)"
  shows "\<exists>d1. upsert_receipt (db s) (num_value k) (userId sess) (db_now t) = Inr d1 \<and> db s1 = d1"
  using assms
  by (auto simp: handle_msg_delivered_def Let_def split: sum.splits option.splits
      dest: sendToUser_result)

lemma handle_msg_delivered_frame:
  "sessionBySocket (snd (handle_msg_delivered t ws sess k s)) = sessionBySocket s"
  by (auto simp: handle_msg_delivered_def Let_def split: sum.splits option.splits)

lemma handle_msg_delivered_after_upsert:
  assumes "\<not> falsy k"
    and "upsert_receipt (db s) (num_value k) (userId sess) (db_now t) = Inr d1"
  shows "fst (handle_msg_delivered t ws sess k s) = Completed"
    and "db (snd (handle_msg_delivered t ws sess k s)) = d1"
    and "set (outbox (snd (handle_msg_delivered t ws sess k s)) c)
           \<subseteq> insert (MsgDeliveredBy (num_value k) (userId sess)) (set (outbox s c))"
proof -
  show "fst (handle_msg_delivered t ws sess k s) = Completed"
    using assms by (auto simp: handle_msg_delivered_def Let_def split: option.splits)
  show "db (snd (handle_msg_delivered t ws sess k s)) = d1"
    using assms by (auto simp: handle_msg_delivered_def Let_def split: option.splits)
  show "set (outbox (snd (handle_msg_delivered t ws sess k s)) c)
           \<subseteq> insert (MsgDeliveredBy (num_value k) (userId sess)) (set (outbox s c))"
  proof (cases "where_value k")
    case None
    with assms show ?thesis
      by (auto simp: handle_msg_delivered_def Let_def)
  next
    case (Some j)
    then have j: "j = num_value k"
      by (simp add: where_value_num_value)
    show ?thesis
      using assms Some
        set_outbox_sendToUser [of _ "MsgDeliveredBy (num_value k) (userId sess)" "s\<lparr>db := d1\<rparr>" c]
      unfolding j
      by (auto simp: handle_msg_delivered_def Let_def split: option.splits)
  qed
qed

lemma delivery_ack_twice:
  assumes sess: "sessionBySocket s ws = Some sess"
    and k: "\<not> falsy k"
    and first: "on_message env t1 ws (Parsed (MsgDelivered k)) s = (Completed, s1)"
  shows "\<exists>ts. receipt_delivered (db s1) (nat (num_value k)) (userId sess) = Some ts \<and>
           fst (on_message env t2 ws (Parsed (MsgDelivered k)) s1) = Completed \<and>
           db (snd (on_message env t2 ws (Parsed (MsgDelivered k)) s1)) = db s1 \<and>
           receipt_delivered (db (snd (on_message env t2 ws (Parsed (MsgDelivered k)) s1)))
             (nat (num_value k)) (userId sess) = Some ts \<and>
           (\<forall>c. set (outbox (snd (on_message env t2 ws (Parsed (MsgDelivered k)) s1)) c)
              \<subseteq> insert (MsgDeliveredBy (num_value k) (userId sess)) (set (outbox s1 c)))"
proof -
  from sess first have h: "handle_msg_delivered t1 ws sess k s = (Completed, s1)"
    by (simp add: on_message_def)
  from handle_msg_delivered_Completed [OF k h]
  have up: "upsert_receipt (db s) (num_value k) (userId sess) (db_now t1) = Inr (db s1)"
    by auto
  have sess1: "sessionBySocket s1 ws = Some sess"
    using handle_msg_delivered_frame [of t1 ws sess k s] h sess by simp
  then have second: "on_message env t2 ws (Parsed (MsgDelivered k)) s1 =
      handle_msg_delivered t2 ws sess k s1"
    by (simp add: on_message_def)
  have up2: "upsert_receipt (db s1) (num_value k) (userId sess) (db_now t2) = Inr (db s1)"
    by (rule upsert_receipt_again [OF up])
  have "receipt_delivered (db s1) (nat (num_value k)) (userId sess) \<noteq> None"
    by (simp add: receipt_delivered_upsert [OF up])
  then obtain ts where ts: "receipt_delivered (db s1) (nat (num_value k)) (userId sess) = Some ts"
    by auto
  show ?thesis
    using ts handle_msg_delivered_after_upsert [OF k up2, of ws]
    by (auto simp: second)
qed

text \<open>
  Claim C5. When a msg\_delivered of a user for a message has run (the handler completed
  past its validation), the receipt of the pair has a deliveredAt; running the same
  acknowledgement again, at any later time, completes, sends no error frame (nothing but
  the msg\_delivered notice), and leaves the store, with it that deliveredAt, as it was.
  And no event of the server changes or clears a deliveredAt that is set.
\<close>

theorem C5_delivery_ack_idempotent:
  "(sessionBySocket s ws = Some sess \<and> \<not> falsy k \<and>
    on_message env t1 ws (Parsed (MsgDelivered k)) s = (Completed, s1) \<longrightarrow>
      (\<exists>ts. receipt_delivered (db s1) (nat (num_value k)) (userId sess) = Some ts \<and>
         fst (on_message env t2 ws (Parsed (MsgDelivered k)) s1) = Completed \<and>
         db (snd (on_message env t2 ws (Parsed (MsgDelivered k)) s1)) = db s1 \<and>
         receipt_delivered (db (snd (on_message env t2 ws (Parsed (MsgDelivered k)) s1)))
           (nat (num_value k)) (userId sess) = Some ts \<and>
         (\<forall>c. set (outbox (snd (on_message env t2 ws (Parsed (MsgDelivered k)) s1)) c)
            \<subseteq> insert (MsgDeliveredBy (num_value k) (userId sess)) (set (outbox s1 c))))) \<and>
   (receipt_delivered (db s) m u = Some ts' \<longrightarrow>
      receipt_delivered (db (step env e s)) m u = Some ts')"
  using delivery_ack_twice [of s ws sess k env t1 s1 t2]
    receipt_delivered_kept_step [of s m u ts' env e]
  by blast

text \<open>
  Witness for C5: bob acknowledges message 1 at time 200 and again at time 300; the
  receipt keeps 200. The same event leaves carol's receipt of message 1 at 101.
\<close>

theorem C5_delivery_ack_idempotent_witness:
  "sessionBySocket example_server 10 = Some \<lparr>userId = 1, sess_username = ''bob''\<rparr> \<and>
   \<not> falsy (Num 1) \<and>
   on_message example_env example_tick 10 (Parsed (MsgDelivered (Num 1))) example_server =
     (Completed, example_acked) \<and>
   receipt_delivered (db example_server) 1 1 = None \<and>
   receipt_delivered (db example_acked) 1 1 = Some 200 \<and>
   fst (on_message example_env example_later 10 (Parsed (MsgDelivered (Num 1))) example_acked)
     = Completed \<and>
   db (snd (on_message example_env example_later 10 (Parsed (MsgDelivered (Num 1))) example_acked))
     = db example_acked \<and>
   receipt_delivered
     (db (snd (on_message example_env example_later 10 (Parsed (MsgDelivered (Num 1))) example_acked)))
     1 1 = Some 200 \<and>
   receipt_delivered (db example_server) 1 3 = Some 101 \<and>
   receipt_delivered
     (db (step example_env (Message example_tick 10 (Parsed (MsgDelivered (Num 1)))) example_server))
     1 3 = Some 101"
proof -
  have a: "sessionBySocket example_server 10 = Some \<lparr>userId = 1, sess_username = ''bob''\<rparr>"
    by (simp add: example_server_def)
  have b: "\<not> falsy (Num 1)"
    by (simp add: falsy_def)
  have "fst (on_message example_env example_tick 10 (Parsed (MsgDelivered (Num 1))) example_server)
      = Completed"
    by (simp add: on_message_def handle_msg_delivered_def example_server_def example_db_def
        example_tick_def falsy_def upsert_receipt_def message_exists_def user_exists_def
        select_sender_def where_value_def Let_def)
  then have c: "on_message example_env example_tick 10 (Parsed (MsgDelivered (Num 1)))
      example_server = (Completed, example_acked)"
    by (simp add: example_acked_def prod_eq_iff)
  have d: "receipt_delivered (db example_server) 1 1 = None"
    "receipt_delivered (db example_server) 1 3 = Some 101"
    by (simp_all add: receipt_delivered_def example_server_def example_db_def)
  have e: "receipt_delivered (db example_acked) 1 1 = Some 200"
    by (simp add: example_acked_def on_message_def handle_msg_delivered_def example_server_def
        example_db_def example_tick_def falsy_def upsert_receipt_def message_exists_def
        user_exists_def select_sender_def where_value_def receipt_delivered_def Let_def)
  show ?thesis
    using C5_delivery_ack_idempotent [of example_server 10
        "\<lparr>userId = 1, sess_username = ''bob''\<rparr>" "Num 1" example_env example_tick
        example_acked example_later 1 3 101
        "Message example_tick 10 (Parsed (MsgDelivered (Num 1)))"]
      a b c d e
    by auto
qed

section \<open>C6: a blocked sender\<close>

lemma blocked_sender_refused:
  assumes "\<not> falsy toUserId" and "trim b \<noteq> []"
    and "isBlocked (db s) toUserId (userId sess)"
  shows "handle_msg_send t ws sess toUserId b s =
           (Completed,
            if readyState s ws = OPEN
            then s\<lparr>outbox := (outbox s)(ws := outbox s ws @ [Error blocked])\<rparr>
            else s)"
  using assms by (simp add: handle_msg_send_def safeSend_def ws_send_def Let_def)

lemma dm_create_new:
  assumes "store_ok d" and "0 \<le> a" and "user_exists d (nat a)" and "names_user d b"
    and "nat a \<noteq> nat b"
  shows "\<exists>d3. dm_create d a b = (Inr (conversations_autoinc d), d3) \<and>
           conversation_exists d3 (conversations_autoinc d) \<and>
           conversation_members d3 (conversations_autoinc d, nat b) = Some Member \<and>
           users d3 = users d \<and> messages d3 = messages d \<and>
           messages_autoinc d3 = messages_autoinc d"
  using assms store_ok_fresh [OF assms(1)]
  by (simp add: dm_create_def insert_conversation_def insert_member_def Let_def
      conversation_exists_def user_exists_def names_user_def)

lemma fraction_not_blocked: "where_value toUserId = None \<Longrightarrow> \<not> isBlocked d toUserId u"
  by (simp add: isBlocked_def)

lemma handle_msg_send_fraction:
  assumes "where_value toUserId = None" and "\<not> falsy toUserId" and "trim b \<noteq> []"
    and "length (trim b) \<le> 65535"
    and "store_ok (db s)" and "user_exists (db s) (userId sess)"
    and "names_user (db s) (num_value toUserId)" and "userId sess \<noteq> nat (num_value toUserId)"
    and "\<not> message_exists (db s) (messages_autoinc (db s))"
  shows "fst (handle_msg_send t ws sess toUserId b s) = Completed"
    and "messages (db (snd (handle_msg_send t ws sess toUserId b s))) =
           messages (db s) @
             [\<lparr>mid = messages_autoinc (db s), conversation_id = conversations_autoinc (db s),
               sender_user_id = userId sess, body = trim b, created_at = db_now t\<rparr>]"
    and "conversation_members (db (snd (handle_msg_send t ws sess toUserId b s)))
           (conversations_autoinc (db s), nat (num_value toUserId)) = Some Member"
    and "outbox (snd (handle_msg_send t ws sess toUserId b s)) ws =
           (if readyState s ws = OPEN
            then outbox s ws @
                   [MsgSent (messages_autoinc (db s)) (AsNumber (conversations_autoinc (db s)))]
            else outbox s ws)"
proof -
  let ?c = "conversations_autoinc (db s)"
  let ?m = "messages_autoinc (db s)"
  from dm_create_new [OF assms(5) _ _ assms(7), of "int (userId sess)"] assms(6,8)
  obtain d3 where d3: "dm_create (db s) (int (userId sess)) (num_value toUserId) = (Inr ?c, d3)"
    "conversation_exists d3 ?c"
    "conversation_members d3 (?c, nat (num_value toUserId)) = Some Member"
    "users d3 = users (db s)" "messages d3 = messages (db s)" "messages_autoinc d3 = ?m"
    by auto
  have g: "getOrCreateDM_js (db s) (int (userId sess)) toUserId = (Inr (AsNumber ?c), d3)"
    using assms(1) d3(1) by (simp add: getOrCreateDM_js_def)
  let ?d4 = "d3\<lparr>messages_autoinc := Suc ?m,
      messages := messages d3 @
        [\<lparr>mid = ?m, conversation_id = ?c, sender_user_id = userId sess, body = trim b,
          created_at = db_now t\<rparr>]\<rparr>"
  have i: "insert_message d3 ?c (userId sess) (trim b) (db_now t) = (Inr ?m, ?d4)"
    using assms(4,6,9) d3(2,4,5,6)
    by (simp add: insert_message_def Let_def message_exists_def user_exists_def)
  have st: "sendToUser toUserId m s' = (Completed, s')" for m s'
    using assms(1) by (simp add: sendToUser_def connections_get_def)
  have run: "handle_msg_send t ws sess toUserId b s =
      (Completed, ws_send ws (MsgSent ?m (AsNumber ?c)) (s\<lparr>db := ?d4\<rparr>))"
    using assms(1,2,3) fraction_not_blocked [OF assms(1)]
    by (simp add: handle_msg_send_def Let_def g i st safeSend_serializable)
  show "fst (handle_msg_send t ws sess toUserId b s) = Completed"
    by (simp add: run)
  show "messages (db (snd (handle_msg_send t ws sess toUserId b s))) =
           messages (db s) @
             [\<lparr>mid = ?m, conversation_id = ?c,
               sender_user_id = userId sess, body = trim b, created_at = db_now t\<rparr>]"
    by (simp add: run d3(5))
  show "conversation_members (db (snd (handle_msg_send t ws sess toUserId b s)))
           (?c, nat (num_value toUserId)) = Some Member"
    by (simp add: run d3(3))
  show "outbox (snd (handle_msg_send t ws sess toUserId b s)) ws =
           (if readyState s ws = OPEN
            then outbox s ws @ [MsgSent ?m (AsNumber ?c)]
            else outbox s ws)"
    by (simp add: run outbox_ws_send)
qed

text \<open>
  Claim C6, against the code. On a connection with a session, take a msg\_send that passes
  the validation: toUserId is not NaN or 0 and the body is not empty after trimming. When
  the SELECT on user\_blocks finds a row for toUserId and the sender, the answer is error
  blocked and nothing is stored, as the claim says. But the SELECT compares toUserId
  exactly, while the INSERT of the member row rounds it. So a toUserId that is not an
  integer finds no row, whatever user\_blocks holds: when it rounds to the id of another
  user that exists, the handler completes, a conversation is created with that user as a
  member, and the message is stored in it and acknowledged with msg\_sent (on a store that
  hands out unused ids, for a body within the 65535 bytes of the column).
\<close>

theorem C6_block_check:
  assumes "sessionBySocket s ws = Some sess" and "\<not> falsy toUserId" and "trim b \<noteq> []"
  shows "(isBlocked (db s) toUserId (userId sess) \<longrightarrow>
            on_message env t ws (Parsed (MsgSend toUserId b)) s =
              (Completed,
               if readyState s ws = OPEN
               then s\<lparr>outbox := (outbox s)(ws := outbox s ws @ [Error blocked])\<rparr>
               else s)) \<and>
         (where_value toUserId = None \<and> length (trim b) \<le> 65535 \<and>
          store_ok (db s) \<and> \<not> message_exists (db s) (messages_autoinc (db s)) \<and>
          user_exists (db s) (userId sess) \<and> names_user (db s) (num_value toUserId) \<and>
          userId sess \<noteq> nat (num_value toUserId) \<longrightarrow>
            fst (on_message env t ws (Parsed (MsgSend toUserId b)) s) = Completed \<and>
            messages (db (snd (on_message env t ws (Parsed (MsgSend toUserId b)) s))) =
              messages (db s) @
                [\<lparr>mid = messages_autoinc (db s), conversation_id = conversations_autoinc (db s),
                  sender_user_id = userId sess, body = trim b, created_at = db_now t\<rparr>] \<and>
            conversation_members (db (snd (on_message env t ws (Parsed (MsgSend toUserId b)) s)))
              (conversations_autoinc (db s), nat (num_value toUserId)) = Some Member \<and>
            outbox (snd (on_message env t ws (Parsed (MsgSend toUserId b)) s)) ws =
              (if readyState s ws = OPEN
               then outbox s ws @
                      [MsgSent (messages_autoinc (db s)) (AsNumber (conversations_autoinc (db s)))]
               else outbox s ws))"
proof -
  have run: "on_message env t ws (Parsed (MsgSend toUserId b)) s =
      handle_msg_send t ws sess toUserId b s"
    using assms(1) by (simp add: on_message_def)
  show ?thesis
    unfolding run
    using blocked_sender_refused [OF assms(2,3), of s sess t ws]
      handle_msg_send_fraction [where toUserId = toUserId and b = b and s = s and sess = sess
        and t = t and ws = ws]
      assms(2,3)
    by blast
qed

text \<open>
  Witness for C6. Carol (user 3) has blocked bob (user 1). Bob, on socket 10, sends her
  hola with toUserId 3 and is answered blocked. Then he sends hola with toUserId 3.4, the
  failing input: the handler completes, conversation 2 is created with carol as a member,
  message 3 is stored in it, and bob is sent msg\_sent.
\<close>

theorem C6_block_check_witness:
  "sessionBySocket example_server 10 = Some \<lparr>userId = 1, sess_username = ''bob''\<rparr> \<and>
   (3, 1) \<in> user_blocks example_db \<and> trim ''hola'' = ''hola'' \<and>
   \<not> falsy (Num 3) \<and> isBlocked (db example_server) (Num 3) 1 \<and>
   on_message example_env example_tick 10 (Parsed (MsgSend (Num 3) ''hola'')) example_server =
     (Completed, example_server\<lparr>outbox := (outbox example_server)(10 := [Error blocked])\<rparr>) \<and>
   \<not> falsy (Frac (17 / 5)) \<and> where_value (Frac (17 / 5)) = None \<and>
   num_value (Frac (17 / 5)) = 3 \<and> \<not> isBlocked (db example_server) (Frac (17 / 5)) 1 \<and>
   store_ok example_db \<and> \<not> message_exists example_db 3 \<and> user_exists example_db 1 \<and>
   names_user example_db 3 \<and>
   fst (on_message example_env example_tick 10 (Parsed (MsgSend (Frac (17 / 5)) ''hola''))
          example_server) = Completed \<and>
   messages (db (snd (on_message example_env example_tick 10
          (Parsed (MsgSend (Frac (17 / 5)) ''hola'')) example_server))) =
     messages example_db @
       [\<lparr>mid = 3, conversation_id = 2, sender_user_id = 1, body = ''hola'', created_at = 200\<rparr>] \<and>
   conversation_members (db (snd (on_message example_env example_tick 10
          (Parsed (MsgSend (Frac (17 / 5)) ''hola'')) example_server))) (2, 3) = Some Member \<and>
   outbox (snd (on_message example_env example_tick 10
          (Parsed (MsgSend (Frac (17 / 5)) ''hola'')) example_server)) 10
     = [MsgSent 3 (AsNumber 2)]"
proof -
  have a: "sessionBySocket example_server 10 = Some \<lparr>userId = 1, sess_username = ''bob''\<rparr>"
    by (simp add: example_server_def)
  have st: "db example_server = example_db" "readyState example_server 10 = OPEN"
    "outbox example_server 10 = []" "db_now example_tick = 200"
    "messages_autoinc example_db = 3" "conversations_autoinc example_db = 2"
    by (simp_all add: example_server_def example_tick_def example_db_def)
  have fl: "\<lfloor>17 / 5 :: rat\<rfloor> = 3" "\<lfloor>39 / 10 :: rat\<rfloor> = 3"
    by linarith+
  have n: "\<not> falsy (Num 3)" "\<not> falsy (Frac (17 / 5))" "where_value (Frac (17 / 5)) = None"
    "num_value (Frac (17 / 5)) = 3"
    by (simp_all add: falsy_def where_value_def sql_round_def fl)
  have b: "(3, 1) \<in> user_blocks example_db" "isBlocked (db example_server) (Num 3) 1"
    "\<not> isBlocked (db example_server) (Frac (17 / 5)) 1"
    by (simp_all add: isBlocked_def where_value_def fl st example_db_def)
  have ok: "store_ok example_db"
    by (auto simp: store_ok_def example_db_def conversation_exists_def split: if_splits)
  have ex: "\<not> message_exists example_db 3" "user_exists example_db 1" "names_user example_db 3"
    by (simp_all add: message_exists_def user_exists_def names_user_def example_db_def)
  have len: "length ''hola'' \<le> 65535" "''hola'' \<noteq> []"
    by simp_all
  show ?thesis
    using C6_block_check [OF a n(1), of "''hola''" example_env example_tick]
      C6_block_check [OF a n(2), of "''hola''" example_env example_tick]
      a n b ok ex len trim_examples(1)
    by (simp add: st)
qed

section \<open>C7: the backlog\<close>

lemma is_pending_in_backlog: "is_pending d u m = in_backlog d u m"
  by (simp add: is_pending_def in_backlog_def undelivered_def receipt_delivered_def
      split: option.splits)

lemma select_pending_sorted_take:
  "select_pending d u = take 500 (sort_key created_at (filter (in_backlog d u) (messages d)))"
  by (simp add: select_pending_def is_pending_in_backlog [abs_def])

lemma backlog_spec_take:
  fixes ys :: "message_row list"
  assumes "sorted (map created_at ys)" and "mset ys = P"
  shows "sorted (map created_at (take n ys))"
    and "mset (take n ys) \<subseteq># P"
    and "length (take n ys) = min n (size P)"
    and "\<forall>m \<in># P - mset (take n ys). \<forall>m' \<in> set (take n ys). created_at m' \<le> created_at m"
proof -
  have split: "mset ys = mset (take n ys) + mset (drop n ys)"
    by (metis append_take_drop_id mset_append)
  show "sorted (map created_at (take n ys))"
    using assms(1) by (simp add: take_map [symmetric])
  show "mset (take n ys) \<subseteq># P"
    using split assms(2) by (metis mset_subset_eq_add_left)
  have "length ys = size P"
    using assms(2) by (metis size_mset)
  then show "length (take n ys) = min n (size P)"
    by (simp add: min.commute)
  have rest: "P - mset (take n ys) = mset (drop n ys)"
    using split assms(2) by simp
  have "sorted (map created_at (take n ys) @ map created_at (drop n ys))"
    using assms(1) by (simp add: map_append [symmetric] del: map_append)
  then have "\<forall>a \<in> set (take n ys). \<forall>b \<in> set (drop n ys). created_at a \<le> created_at b"
    by (auto simp: sorted_append)
  then show "\<forall>m \<in># P - mset (take n ys). \<forall>m' \<in> set (take n ys). created_at m' \<le> created_at m"
    by (simp add: rest)
qed

lemma select_pending_backlog: "backlog_spec d u (select_pending d u)"
proof -
  let ?ys = "sort_key created_at (filter (in_backlog d u) (messages d))"
  have a: "sorted (map created_at ?ys)"
    by (rule sorted_sort_key)
  have b: "mset ?ys = filter_mset (in_backlog d u) (mset (messages d))"
    by simp
  show ?thesis
    unfolding backlog_spec_def select_pending_sorted_take
    using backlog_spec_take [OF a b, of 500] by blast
qed

text \<open>
  Claim C7, against the code. A hello succeeds when the token verifies to a payload with a
  user id that is not 0 and names an active user. The query of deliverPendingToUser then
  selects a backlog of the user as the claim describes it: ordered by creation time, due
  to the user, 500 or else all, the oldest first. But no row of it is ever pushed. The
  object built of a row holds the ids of the message and of the conversation as the store
  returns them, BigInts, and serializing the first row throws a TypeError. So, in a state
  whose Sets hold no socket twice (as every state that the server reaches): the socket
  joins the connections of the user; every open socket receives, after what it had,
  hello\_ok if it is the socket of the handshake and the users frame if it is a client of
  the server, and nothing else, so no msg\_new; and the handler completes only when the
  backlog is empty, and is rejected with the TypeError otherwise. The handler is taken to
  run without another one in between.
\<close>

theorem C7_backlog_never_pushed:
  assumes "sets_ok s"
    and "verifyToken env token = Inr (Some p)" and "p_userId p \<noteq> 0"
    and "select_user (db s) (p_userId p) = Some row" and "is_active row"
  shows "backlog_spec (db s) (p_userId p) (select_pending (db s) (p_userId p)) \<and>
         fst (on_message env t ws (Parsed (Hello token)) s) =
           (if select_pending (db s) (p_userId p) = [] then Completed else Rejected TypeError) \<and>
         connectionsOf (snd (on_message env t ws (Parsed (Hello token)) s)) (p_userId p)
           = set_add ws (connectionsOf s (p_userId p)) \<and>
         (\<forall>c. outbox (snd (on_message env t ws (Parsed (Hello token)) s)) c =
            (if readyState s c = OPEN
             then outbox s c @
                  (if c = ws then [HelloOk (p_userId p) (username row)] else []) @
                  (if c \<in> set (clients s)
                   then [Users (users_payload env (snd (on_message env t ws (Parsed (Hello token)) s)))]
                   else [])
             else outbox s c))"
  using outbox_after_hello [OF assms, of t ws] select_pending_backlog [of "db s" "p_userId p"]
  by simp

lemma example_pending_alice:
  "select_pending example_db 2 =
     [\<lparr>mid = 1, conversation_id = 1, sender_user_id = 2, body = ''hola'', created_at = 100\<rparr>,
      \<lparr>mid = 2, conversation_id = 1, sender_user_id = 3, body = ''que tal'', created_at = 105\<rparr>]"
  by (simp add: select_pending_def is_pending_def undelivered_def example_db_def)

text \<open>
  Witness for C7, the failing input: alice (2) is a member of conversation 1 and has no
  receipt for its messages 1 and 2, which are her backlog. She says hello on socket 11
  while her socket 12 is open. The handler is rejected with the TypeError; socket 11 holds
  hello\_ok and the users frame, the sockets 12 and 10 the users frame, and no socket a
  msg\_new.
\<close>

theorem C7_backlog_never_pushed_witness:
  "sets_ok example_server \<and>
   verifyToken example_env (Some ''alice.sig-alice'') =
     Inr (Some \<lparr>p_userId = 2, p_username = ''alice''\<rparr>) \<and>
   select_user example_db 2 =
     Some \<lparr>uid = 2, username = ''alice'', email = ''alice@upv.es'', is_active = True\<rparr> \<and>
   select_pending example_db 2 =
     [\<lparr>mid = 1, conversation_id = 1, sender_user_id = 2, body = ''hola'', created_at = 100\<rparr>,
      \<lparr>mid = 2, conversation_id = 1, sender_user_id = 3, body = ''que tal'', created_at = 105\<rparr>] \<and>
   backlog_spec example_db 2
     [\<lparr>mid = 1, conversation_id = 1, sender_user_id = 2, body = ''hola'', created_at = 100\<rparr>,
      \<lparr>mid = 2, conversation_id = 1, sender_user_id = 3, body = ''que tal'', created_at = 105\<rparr>] \<and>
   fst (on_message example_env example_tick 11 (Parsed (Hello (Some ''alice.sig-alice'')))
          example_server) = Rejected TypeError \<and>
   connectionsOf example_alice_hello 2 = [12, 11] \<and>
   outbox example_alice_hello 11 =
     [HelloOk 2 ''alice'', Users (users_payload example_env example_alice_hello)] \<and>
   outbox example_alice_hello 12 = [Users (users_payload example_env example_alice_hello)] \<and>
   outbox example_alice_hello 10 = [Users (users_payload example_env example_alice_hello)]"
proof -
  have act: "is_active \<lparr>uid = 2, username = ''alice'', email = ''alice@upv.es'', is_active = True\<rparr>"
    and nz: "p_userId \<lparr>p_userId = 2, p_username = ''alice''\<rparr> \<noteq> 0"
    and sel: "select_user (db example_server) (p_userId \<lparr>p_userId = 2, p_username = ''alice''\<rparr>) =
      Some \<lparr>uid = 2, username = ''alice'', email = ''alice@upv.es'', is_active = True\<rparr>"
    using example_users(2) by simp_all
  have st: "db example_server = example_db" "connectionsOf example_server 2 = [12]"
    "clients example_server = [10, 11, 12]"
    "readyState example_server 10 = OPEN" "readyState example_server 11 = OPEN"
    "readyState example_server 12 = OPEN"
    "outbox example_server = (\<lambda>_. [])"
    by (simp_all add: example_server_def connectionsOf_def)
  show ?thesis
    using C7_backlog_never_pushed [OF example_sets_ok example_tokens(2) nz sel act, of example_tick 11]
      example_sets_ok example_tokens(2) example_users(2)
    by (simp add: example_alice_hello_def [symmetric] st example_pending_alice set_add_def)
qed

section \<open>C8: the roster\<close>

lemma users_payload_roster: "roster_spec env s (users_payload env s)"
proof -
  let ?ys = "sort_key (\<lambda>u. sortKey env (username u)) (users (db s))"
  have "sorted (map (\<lambda>u. sortKey env (username u)) (filter is_active ?ys))"
    by (rule sorted_filter) (rule sorted_sort_key)
  then show ?thesis
    by (simp add: roster_spec_def users_payload_def comp_def)
qed

lemma users_payload_example:
  assumes "db s = example_db"
  shows "users_payload example_env s =
     [\<lparr>r_id = 2, r_username = ''alice'', r_email = ''alice@upv.es'', online = isUserOnline s 2\<rparr>,
      \<lparr>r_id = 1, r_username = ''bob'', r_email = ''bob@upv.es'', online = isUserOnline s 1\<rparr>]"
  by (simp add: users_payload_def assms example_db_def example_env_def)

lemma rosters_append: "rosters (xs @ ys) = rosters xs @ rosters ys"
  by (induction xs rule: rosters.induct) simp_all

lemma roster_after_hello:
  assumes "sets_ok s"
    and "verifyToken env token = Inr (Some p)" and "p_userId p \<noteq> 0"
    and "select_user (db s) (p_userId p) = Some row" and "is_active row"
    and "c \<in> set (clients (snd (on_message env t ws (Parsed (Hello token)) s)))"
    and "readyState (snd (on_message env t ws (Parsed (Hello token)) s)) c = OPEN"
  shows "rosters (new_frames s (snd (on_message env t ws (Parsed (Hello token)) s)) c) =
           [users_payload env (snd (on_message env t ws (Parsed (Hello token)) s))]"
proof -
  note h = outbox_after_hello [OF assms(1-5), of t ws]
  from assms(6,7) have c: "c \<in> set (clients s)" "readyState s c = OPEN"
    by (simp_all add: h(3,4))
  show ?thesis
    unfolding new_frames_def h(6) [of c]
    using c by (simp add: rosters_append)
qed

lemma roster_after_close:
  assumes "sets_ok s"
    and "sessionBySocket s ws = Some sess"
    and "readyState s ws = OPEN \<or> readyState s ws = CLOSING"
  shows "clients (step env (Close ws) s) = removeAll ws (clients s)"
    and "readyState (step env (Close ws) s) = (readyState s)(ws := CLOSED)"
    and "outbox (step env (Close ws) s) c =
           (if c \<in> set (clients (step env (Close ws) s)) \<and> readyState (step env (Close ws) s) c = OPEN
            then outbox s c @ [Users (users_payload env (step env (Close ws) s))]
            else outbox s c)"
proof -
  let ?s0 = "s\<lparr>clients := removeAll ws (clients s), readyState := (readyState s)(ws := CLOSED)\<rparr>"
  let ?s1 = "unregister_connection (userId sess) ws ?s0"
  have run: "step env (Close ws) s = sendUsersList env None ?s1"
    using assms(2,3) by (auto simp: step_def on_close_def)
  show cl: "clients (step env (Close ws) s) = removeAll ws (clients s)"
    and rs: "readyState (step env (Close ws) s) = (readyState s)(ws := CLOSED)"
    by (simp_all add: run)
  have up: "users_payload env ?s1 = users_payload env (step env (Close ws) s)"
    by (rule sym, rule users_payload_cong) (simp_all add: run)
  have d: "distinct (clients ?s1)"
    using assms(1) by (simp add: sets_ok_def distinct_removeAll)
  have "outbox (step env (Close ws) s) c =
      (if c \<in> set (clients ?s1) \<and> readyState ?s1 c = OPEN
       then outbox ?s1 c @ [Users (users_payload env ?s1)]
       else outbox ?s1 c)"
    using outbox_send_each [OF d, of "Users (users_payload env ?s1)" ?s1 c]
    by (simp add: run sendUsersList_def Let_def)
  then show "outbox (step env (Close ws) s) c =
           (if c \<in> set (clients (step env (Close ws) s)) \<and> readyState (step env (Close ws) s) c = OPEN
            then outbox s c @ [Users (users_payload env (step env (Close ws) s))]
            else outbox s c)"
    by (simp add: cl rs up)
qed

text \<open>
  Claim C8. The payload of a users frame is the roster of the state in which it is built:
  exactly the active users, with online as isUserOnline says, ordered by username. The
  connects and disconnects of the claim are the changes of the registry: a hello that is
  accepted, and the close of a socket that has a session. After either, every open client
  of the server was sent exactly one users frame, and it holds the roster of the state
  after the event (in a state whose Sets hold no socket twice, as every state that the
  server reaches). This holds of a hello also when the backlog of its user then stops the
  handler, since the roster is sent first. Each listener is taken to run without another
  one in between.
\<close>

theorem C8_roster_broadcast:
  "roster_spec env x (users_payload env x) \<and>
   (sets_ok s \<and> verifyToken env token = Inr (Some p) \<and> p_userId p \<noteq> 0 \<and>
    select_user (db s) (p_userId p) = Some row \<and> is_active row \<longrightarrow>
      (\<forall>c \<in> set (clients (snd (on_message env t ws (Parsed (Hello token)) s))).
         readyState (snd (on_message env t ws (Parsed (Hello token)) s)) c = OPEN \<longrightarrow>
         rosters (new_frames s (snd (on_message env t ws (Parsed (Hello token)) s)) c) =
           [users_payload env (snd (on_message env t ws (Parsed (Hello token)) s))])) \<and>
   (sets_ok s \<and> sessionBySocket s ws = Some sess \<and>
    (readyState s ws = OPEN \<or> readyState s ws = CLOSING) \<longrightarrow>
      (\<forall>c \<in> set (clients (step env (Close ws) s)).
         readyState (step env (Close ws) s) c = OPEN \<longrightarrow>
         rosters (new_frames s (step env (Close ws) s) c) =
           [users_payload env (step env (Close ws) s)]))"
proof -
  have "rosters (new_frames s (step env (Close ws) s) c) = [users_payload env (step env (Close ws) s)]"
    if "sets_ok s" "sessionBySocket s ws = Some sess"
      "readyState s ws = OPEN \<or> readyState s ws = CLOSING"
      "c \<in> set (clients (step env (Close ws) s))" "readyState (step env (Close ws) s) c = OPEN"
    for c
    unfolding new_frames_def roster_after_close(3) [OF that(1-3)]
    using that(4,5) by simp
  then show ?thesis
    using users_payload_roster [of env x] roster_after_hello [of s env token p row _ t ws]
    by blast
qed

lemma example_joined_state:
  "db example_joined = example_db"
  "clients example_joined = [10, 11, 12]"
  "readyState example_joined 10 = OPEN"
  "readyState example_joined 11 = OPEN"
  "readyState example_joined 12 = OPEN"
  "connectionsByUser example_joined = [2 \<mapsto> [12], 1 \<mapsto> [10, 11]]"
  by (simp_all add: example_joined_def on_message_def handle_hello_def verifyToken_def
      example_env_def select_user_def example_server_def example_db_def Let_def
      register_connection_def set_add_def safeSend_serializable deliverPendingToUser_result)

lemma example_left_state:
  "db example_left = example_db"
  "clients example_left = [11, 12]"
  "readyState example_left 11 = OPEN"
  "readyState example_left 12 = OPEN"
  "connectionsByUser example_left 1 = None"
  "connectionsByUser example_left 2 = Some [12]"
  by (simp_all add: example_left_def step_def on_close_def unregister_connection_def
      example_server_def)

text \<open>
  Witness for C8: when bob says hello on socket 11, his second connection, each of the
  sockets 10, 11 and 12 is sent one users frame, with alice and bob online (carol and dave
  are not active); when bob's socket 10 closes in the example, the sockets 11 and 12 are
  sent one users frame, with bob offline.
\<close>

theorem C8_roster_broadcast_witness:
  "sets_ok example_server \<and>
   verifyToken example_env (Some ''bob.sig-bob'') = Inr (Some \<lparr>p_userId = 1, p_username = ''bob''\<rparr>) \<and>
   select_user example_db 1 =
     Some \<lparr>uid = 1, username = ''bob'', email = ''bob@upv.es'', is_active = True\<rparr> \<and>
   clients example_joined = [10, 11, 12] \<and>
   readyState example_joined 10 = OPEN \<and> readyState example_joined 11 = OPEN \<and>
   readyState example_joined 12 = OPEN \<and>
   rosters (new_frames example_server example_joined 10) =
     [[\<lparr>r_id = 2, r_username = ''alice'', r_email = ''alice@upv.es'', online = True\<rparr>,
       \<lparr>r_id = 1, r_username = ''bob'', r_email = ''bob@upv.es'', online = True\<rparr>]] \<and>
   rosters (new_frames example_server example_joined 11) =
     [[\<lparr>r_id = 2, r_username = ''alice'', r_email = ''alice@upv.es'', online = True\<rparr>,
       \<lparr>r_id = 1, r_username = ''bob'', r_email = ''bob@upv.es'', online = True\<rparr>]] \<and>
   rosters (new_frames example_server example_joined 12) =
     [[\<lparr>r_id = 2, r_username = ''alice'', r_email = ''alice@upv.es'', online = True\<rparr>,
       \<lparr>r_id = 1, r_username = ''bob'', r_email = ''bob@upv.es'', online = True\<rparr>]] \<and>
   roster_spec example_env example_joined
     [\<lparr>r_id = 2, r_username = ''alice'', r_email = ''alice@upv.es'', online = True\<rparr>,
      \<lparr>r_id = 1, r_username = ''bob'', r_email = ''bob@upv.es'', online = True\<rparr>] \<and>
   sessionBySocket example_server 10 = Some \<lparr>userId = 1, sess_username = ''bob''\<rparr> \<and>
   readyState example_server 10 = OPEN \<and>
   clients example_left = [11, 12] \<and>
   readyState example_left 11 = OPEN \<and> readyState example_left 12 = OPEN \<and>
   rosters (new_frames example_server example_left 11) =
     [[\<lparr>r_id = 2, r_username = ''alice'', r_email = ''alice@upv.es'', online = True\<rparr>,
       \<lparr>r_id = 1, r_username = ''bob'', r_email = ''bob@upv.es'', online = False\<rparr>]] \<and>
   rosters (new_frames example_server example_left 12) =
     [[\<lparr>r_id = 2, r_username = ''alice'', r_email = ''alice@upv.es'', online = True\<rparr>,
       \<lparr>r_id = 1, r_username = ''bob'', r_email = ''bob@upv.es'', online = False\<rparr>]]"
proof -
  note ok = example_sets_ok
  note tok = example_tokens(1)
  have nz: "p_userId \<lparr>p_userId = 1, p_username = ''bob''\<rparr> \<noteq> 0"
    and act: "is_active \<lparr>uid = 1, username = ''bob'', email = ''bob@upv.es'', is_active = True\<rparr>"
    and sel: "select_user (db example_server) (p_userId \<lparr>p_userId = 1, p_username = ''bob''\<rparr>) =
      Some \<lparr>uid = 1, username = ''bob'', email = ''bob@upv.es'', is_active = True\<rparr>"
    using example_users(1) by simp_all
  have b: "sessionBySocket example_server 10 = Some \<lparr>userId = 1, sess_username = ''bob''\<rparr>"
    "readyState example_server 10 = OPEN" "db example_server = example_db"
    by (simp_all add: example_server_def)
  have pj: "users_payload example_env example_joined =
     [\<lparr>r_id = 2, r_username = ''alice'', r_email = ''alice@upv.es'', online = True\<rparr>,
      \<lparr>r_id = 1, r_username = ''bob'', r_email = ''bob@upv.es'', online = True\<rparr>]"
  proof -
    have "isUserOnline example_joined 2 = True" "isUserOnline example_joined 1 = True"
      by (simp_all add: isUserOnline_def example_joined_state(6))
    then show ?thesis
      by (simp only: users_payload_example [OF example_joined_state(1)])
  qed
  have pl: "users_payload example_env example_left =
     [\<lparr>r_id = 2, r_username = ''alice'', r_email = ''alice@upv.es'', online = True\<rparr>,
      \<lparr>r_id = 1, r_username = ''bob'', r_email = ''bob@upv.es'', online = False\<rparr>]"
  proof -
    have "isUserOnline example_left 2 = True" "isUserOnline example_left 1 = False"
      unfolding isUserOnline_def example_left_state(5,6) by simp_all
    then show ?thesis
      by (simp only: users_payload_example [OF example_left_state(1)])
  qed
  show ?thesis
    using C8_roster_broadcast [where env = example_env and x = example_joined
        and s = example_server and token = "Some ''bob.sig-bob''"
        and p = "\<lparr>p_userId = 1, p_username = ''bob''\<rparr>"
        and row = "\<lparr>uid = 1, username = ''bob'', email = ''bob@upv.es'', is_active = True\<rparr>"
        and t = example_tick and ws = 11]
      C8_roster_broadcast [where env = example_env and s = example_server and ws = 10
        and sess = "\<lparr>userId = 1, sess_username = ''bob''\<rparr>"]
      ok tok nz act sel b
    by (simp add: example_joined_def [symmetric] example_left_def [symmetric]
        example_joined_state example_left_state pj pl)
qed

section \<open>C9: presence and the registry\<close>

lemma isUserOnline_connectionsOf: "isUserOnline s u \<longleftrightarrow> connectionsOf s u \<noteq> []"
  by (simp add: isUserOnline_def connectionsOf_def split: option.splits)

lemma connectionsOf_unregister:
  "connectionsOf (unregister_connection u ws s) v =
     (if v = u then removeAll ws (connectionsOf s v) else connectionsOf s v)"
  by (auto simp: connectionsOf_def unregister_connection_def split: option.splits)

lemma connectionsByUser_unregister_empty:
  "removeAll ws (connectionsOf s u) = [] \<Longrightarrow>
   connectionsByUser (unregister_connection u ws s) u = None"
  by (cases "connectionsByUser s u") (simp_all add: connectionsOf_def unregister_connection_def)

lemma close_unregisters:
  assumes "sessionBySocket s ws = Some sess"
    and "readyState s ws = OPEN \<or> readyState s ws = CLOSING"
  shows "connectionsByUser (step env (Close ws) s) =
           connectionsByUser (unregister_connection (userId sess) ws s)"
  using assms
  by (auto simp: step_def on_close_def unregister_connection_def split: option.splits)

text \<open>
  Claim C9. In every state that the server reaches, a user is online exactly when the
  registry's connections of the user are not empty, and no entry of the registry is an
  empty Set. When a socket with a session closes, it is removed from the connections of
  the session's user and nobody else's connections change; the user is online afterwards
  exactly when other connections remain, and when none remains the user's entry is gone.
\<close>

theorem C9_presence_registry:
  assumes "reachable env s"
  shows "(isUserOnline s u \<longleftrightarrow> connectionsOf s u \<noteq> []) \<and>
         connectionsByUser s u \<noteq> Some [] \<and>
         (sessionBySocket s ws = Some sess \<and> (readyState s ws = OPEN \<or> readyState s ws = CLOSING) \<longrightarrow>
            (\<forall>v. connectionsOf (step env (Close ws) s) v =
                    (if v = userId sess then removeAll ws (connectionsOf s v) else connectionsOf s v)) \<and>
            (isUserOnline (step env (Close ws) s) (userId sess) \<longleftrightarrow>
               removeAll ws (connectionsOf s (userId sess)) \<noteq> []) \<and>
            (removeAll ws (connectionsOf s (userId sess)) = [] \<longrightarrow>
               connectionsByUser (step env (Close ws) s) (userId sess) = None))"
proof -
  have "connectionsByUser s u \<noteq> Some []"
    using reachable_registry_ok [OF assms] by (simp add: registry_ok_def no_empty_set_def)
  moreover have "connectionsOf (step env (Close ws) s) v =
      (if v = userId sess then removeAll ws (connectionsOf s v) else connectionsOf s v)"
    and "isUserOnline (step env (Close ws) s) (userId sess) \<longleftrightarrow>
      removeAll ws (connectionsOf s (userId sess)) \<noteq> []"
    and "removeAll ws (connectionsOf s (userId sess)) = [] \<longrightarrow>
      connectionsByUser (step env (Close ws) s) (userId sess) = None"
    if "sessionBySocket s ws = Some sess" "readyState s ws = OPEN \<or> readyState s ws = CLOSING"
    for v
  proof -
    note eq = close_unregisters [OF that, of env]
    show *: "connectionsOf (step env (Close ws) s) v =
      (if v = userId sess then removeAll ws (connectionsOf s v) else connectionsOf s v)" for v
      by (simp add: connectionsOf_cong [OF eq] connectionsOf_unregister)
    show "isUserOnline (step env (Close ws) s) (userId sess) \<longleftrightarrow>
      removeAll ws (connectionsOf s (userId sess)) \<noteq> []"
      by (simp add: isUserOnline_connectionsOf *)
    show "removeAll ws (connectionsOf s (userId sess)) = [] \<longrightarrow>
      connectionsByUser (step env (Close ws) s) (userId sess) = None"
      by (simp add: eq connectionsByUser_unregister_empty)
  qed
  ultimately show ?thesis
    by (simp add: isUserOnline_connectionsOf)
qed

lemma example_hello_registry:
  "connectionsByUser example_hello = [1 \<mapsto> [10]]"
  "sessionBySocket example_hello 10 = Some \<lparr>userId = 1, sess_username = ''bob''\<rparr>"
  "readyState example_hello 10 = OPEN"
  by (simp_all add: example_hello_def step_def initial_def on_message_def handle_hello_def
      verifyToken_def example_env_def select_user_def example_db_def Let_def
      register_connection_def set_add_def safeSend_serializable deliverPendingToUser_result)

text \<open>
  Witness for C9: after bob's hello on socket 10 he is online with that one connection;
  when socket 10 closes, his entry is removed and he is offline.
\<close>

theorem C9_presence_registry_witness:
  "reachable example_env example_hello \<and>
   isUserOnline example_hello 1 \<and>
   connectionsOf example_hello 1 = [10] \<and>
   connectionsByUser example_hello 1 \<noteq> Some [] \<and>
   sessionBySocket example_hello 10 = Some \<lparr>userId = 1, sess_username = ''bob''\<rparr> \<and>
   readyState example_hello 10 = OPEN \<and>
   connectionsOf (step example_env (Close 10) example_hello) 1 = [] \<and>
   \<not> isUserOnline (step example_env (Close 10) example_hello) 1 \<and>
   connectionsByUser (step example_env (Close 10) example_hello) 1 = None"
proof -
  have r: "reachable example_env example_hello"
    unfolding example_hello_def by (intro reachable.after reachable.start)
  have c: "connectionsOf example_hello 1 = [10]"
    by (simp add: connectionsOf_def example_hello_registry)
  show ?thesis
    using C9_presence_registry [OF r, of 1 10 "\<lparr>userId = 1, sess_username = ''bob''\<rparr>"]
      r c example_hello_registry(2,3)
    by simp
qed

section \<open>C10: an acknowledgement from any user\<close>

lemma find_by_key:
  assumes "distinct (map f xs)" and "x \<in> set xs"
  shows "find (\<lambda>y. f y = f x) xs = Some x"
  using assms by (induction xs) (auto simp: image_iff)

lemma select_sender_of_row:
  assumes "distinct (map mid (messages d))" and "m \<in> set (messages d)"
  shows "select_sender d (int (mid m)) = Some (sender_user_id m)"
  using find_by_key [OF assms] by (simp add: select_sender_def)

lemma upsert_receipt_keeps_messages:
  "upsert_receipt d k u now = Inr d1 \<Longrightarrow> messages d1 = messages d"
  by (auto simp: upsert_receipt_def split: if_splits)

text \<open>
  Claim C10. A user with a session acknowledges a message that exists; nothing is assumed
  about the conversation of the message or its members. What is assumed holds of the
  states that the server reaches on a store that keeps its schema: no Set holds a socket
  twice, the user of the session is a row of users, and the ids of the messages are
  positive and a primary key. The handler completes; the receipt of the message and the
  user has a deliveredAt, the one it had or else the time of the store; and exactly the
  open sockets among the connections of the message's sender receive msg\_delivered with
  the message id and the acknowledging user, every other outbox staying as it was.
\<close>

theorem C10_ack_without_participation:
  assumes "sets_ok s"
    and "sessionBySocket s ws = Some sess"
    and "user_exists (db s) (userId sess)"
    and "m \<in> set (messages (db s))"
    and "distinct (map mid (messages (db s)))"
    and "0 < mid m"
  shows "fst (on_message env t ws (Parsed (MsgDelivered (Num (int (mid m))))) s) = Completed \<and>
         receipt_delivered
           (db (snd (on_message env t ws (Parsed (MsgDelivered (Num (int (mid m))))) s)))
           (mid m) (userId sess)
           = Some (case receipt_delivered (db s) (mid m) (userId sess) of
                     None \<Rightarrow> db_now t | Some ts \<Rightarrow> ts) \<and>
         (\<forall>c. outbox (snd (on_message env t ws (Parsed (MsgDelivered (Num (int (mid m))))) s)) c
            = (if c \<in> set (connectionsOf s (sender_user_id m)) \<and> readyState s c = OPEN
               then outbox s c @ [MsgDeliveredBy (int (mid m)) (userId sess)]
               else outbox s c))"
proof -
  let ?k = "Num (int (mid m))"
  have nf: "\<not> falsy ?k"
    using assms(6) by (simp add: falsy_def)
  have "message_exists (db s) (mid m)"
    using assms(4) by (simp add: message_exists_def)
  with assms(3) obtain d1 where
    up: "upsert_receipt (db s) (int (mid m)) (userId sess) (db_now t) = Inr d1"
    by (simp add: upsert_receipt_def)
  have msgs: "messages d1 = messages (db s)"
    by (rule upsert_receipt_keeps_messages [OF up])
  have snd: "select_sender d1 (int (mid m)) = Some (sender_user_id m)"
    using select_sender_of_row [of d1 m] assms(4,5) msgs by simp
  have run: "on_message env t ws (Parsed (MsgDelivered ?k)) s =
      sendToUser (Num (int (sender_user_id m))) (MsgDeliveredBy (int (mid m)) (userId sess))
        (s\<lparr>db := d1\<rparr>)"
    using assms(2) nf up snd
    by (simp add: on_message_def handle_msg_delivered_def where_value_def Let_def)
  have dist: "distinct (connectionsOf (s\<lparr>db := d1\<rparr>) (sender_user_id m))"
    using assms(1) by (simp add: sets_ok_def)
  have rc: "receipt_delivered d1 (mid m) (userId sess)
      = Some (case receipt_delivered (db s) (mid m) (userId sess) of
                None \<Rightarrow> db_now t | Some ts \<Rightarrow> ts)"
    using receipt_delivered_upsert [OF up, of "mid m" "userId sess"] by simp
  show ?thesis
    using rc by (simp add: run outbox_sendToUser [OF dist])
qed

text \<open>
  Witness for C10: message 1 is in conversation 1, whose members are alice (2) and carol
  (3); alice sent it. Bob (1), who is not a member, acknowledges it on socket 10: the
  receipt of message 1 and bob is set, and alice's socket 12 receives the notice.
\<close>

theorem C10_ack_without_participation_witness:
  "sets_ok example_server \<and>
   sessionBySocket example_server 10 = Some \<lparr>userId = 1, sess_username = ''bob''\<rparr> \<and>
   user_exists example_db 1 \<and>
   conversation_members example_db (1, 1) = None \<and>
   fst (on_message example_env example_tick 10 (Parsed (MsgDelivered (Num 1))) example_server)
     = Completed \<and>
   receipt_delivered
     (db (snd (on_message example_env example_tick 10 (Parsed (MsgDelivered (Num 1))) example_server)))
     1 1 = Some 200 \<and>
   outbox (snd (on_message example_env example_tick 10 (Parsed (MsgDelivered (Num 1))) example_server))
     12 = [MsgDeliveredBy 1 1] \<and>
   outbox (snd (on_message example_env example_tick 10 (Parsed (MsgDelivered (Num 1))) example_server))
     10 = []"
proof -
  let ?m = "\<lparr>mid = 1, conversation_id = 1, sender_user_id = 2, body = ''hola'', created_at = 100\<rparr>"
  have a: "sets_ok example_server"
    by (simp add: sets_ok_def connectionsOf_def example_server_def)
  have b: "sessionBySocket example_server 10 = Some \<lparr>userId = 1, sess_username = ''bob''\<rparr>"
    by (simp add: example_server_def)
  have c: "user_exists (db example_server) (userId \<lparr>userId = 1, sess_username = ''bob''\<rparr>)"
    by (simp add: user_exists_def example_server_def example_db_def)
  have d: "?m \<in> set (messages (db example_server))"
    "distinct (map mid (messages (db example_server)))" "0 < mid ?m"
    by (simp_all add: example_server_def example_db_def)
  have e: "conversation_members example_db (1, 1) = None"
    "receipt_delivered (db example_server) 1 1 = None"
    by (simp_all add: example_db_def example_server_def receipt_delivered_def)
  have f: "connectionsOf example_server 2 = [12]" "readyState example_server 12 = OPEN"
    "outbox example_server 12 = []" "outbox example_server 10 = []" "db_now example_tick = 200"
    by (simp_all add: connectionsOf_def example_server_def example_tick_def)
  show ?thesis
    using C10_ack_without_participation [OF a b c d, of example_env example_tick] a b c e f
    by (simp add: example_server_def)
qed

end
